theory Spec2Isabelle
  imports Main
begin

section \<open>Mark records and the content script's state\<close>

text \<open>
  The content script (class \<open>BlurAnything\<close>) keeps the marks of the current page in
  \<open>blurredElements\<close>, a list of \<open>BlurData\<close> records
  \<^verbatim>\<open>{selector, type: "element" | "area" | "text", coords?, text?, timestamp}\<close>.
  A selector is a string in the source; the model keeps its abstract syntax, one
  constructor for each shape of selector the script builds:
  \<^item> \<open>IdSelector i\<close> is \<^verbatim>\<open>#i\<close>;
  \<^item> \<open>PathSelector segs\<close> is the segments joined by \<^verbatim>\<open> > \<close>, a segment being
    \<^verbatim>\<open>tag.c1.c2:nth-child(k)\<close>;
  \<^item> \<open>AttrSelector a v\<close> is \<^verbatim>\<open>[a="v"]\<close>;
  \<^item> \<open>AreaSelector x y\<close> is \<^verbatim>\<open>.blur-anything-area[data-coords="x,y"]\<close>;
  \<^item> \<open>RawSelector s\<close> is any other stored string.
  Pixel coordinates and the intensity are integers (the intensity is read with
  \<open>parseInt\<close>).
\<close>

datatype segment =
  Segment (seg_tag: string) (seg_classes: "string list") (seg_nth: "nat option")

datatype css_selector =
    IdSelector string
  | PathSelector "segment list"
  | AttrSelector string string
  | AreaSelector int int
  | RawSelector string

datatype blur_type = Element | Area | TextBlur

record coords =
  coord_x :: int
  coord_y :: int
  coord_width :: int
  coord_height :: int

record blur_data =
  selector :: css_selector
  btype :: blur_type
  coords :: "coords option"
  btext :: "string option"
  timestamp :: int

text \<open>
  Calls that leave the class (notifications, the freemium counter, messages to the
  background worker, DOM writes that no field of the class records) are kept as a
  trace in the field \<open>effects\<close>, oldest first.
\<close>

datatype notification =
    MinimumIntensity
  | MaximumIntensity
  | IntensityIs int
  | AreaCreated nat
  | TextTooLong
  | NoImages
  | ComplexSelection
  | FailedToBlurText
  | Blurred string

datatype upgrade_reason = ClickBlur | BlurLimit | RectangleSize | DailyLimit

record save_message =
  msg_url :: "string option"
  msg_blurData :: "blur_data list"

datatype effect =
    ShowToolbarNotification notification
  | ShowUpgradeNotification upgrade_reason
  | IncrementDailyBlurCount
  | UpdateIntensityDisplay
  | UpdateBlurIntensity
  | SaveIntensitySetting
  | AppendBlurArea coords int
  | ApplyBlurToElement css_selector
  | RemoveBlurFromElement css_selector
  | RebuildInjectedCSS
  | SaveBlurData "blur_data list"
  | RemoveAllRanges

record blur_anything =
  isEnabled :: bool
  blurIntensity :: int
  blurredElements :: "blur_data list"
  isBlurMode :: bool
  isDrawingMode :: bool
  isTextSelectionMode :: bool
  isEraserMode :: bool
  blursHidden :: bool
  blursToCleanup :: "nat list"
  startCoords :: "(int \<times> int) option"
  drawingOverlay :: "coords option option"
  bodyCursor :: string
  effects :: "effect list"

text \<open>The field initialisers of the class; the cursor of \<open>document.body\<close> starts unset.\<close>

definition initial_state :: blur_anything where
  "initial_state =
     \<lparr> isEnabled = False, blurIntensity = 10, blurredElements = [],
       isBlurMode = False, isDrawingMode = False, isTextSelectionMode = False,
       isEraserMode = False, blursHidden = False, blursToCleanup = [],
       startCoords = None, drawingOverlay = None, bodyCursor = [], effects = [] \<rparr>"

definition emit :: "effect list \<Rightarrow> blur_anything \<Rightarrow> blur_anything" where
  "emit es s = s\<lparr> effects := effects s @ es \<rparr>"

section \<open>Intensity adjustment\<close>

text \<open>
  \<open>adjustBlurIntensity(change)\<close>: the new value is
  \<^verbatim>\<open>Math.max(1, Math.min(10, this.blurIntensity + change))\<close>; when it equals the old one
  the method only notifies (at 1 or at 10) and returns.
\<close>

definition adjustBlurIntensity :: "int \<Rightarrow> blur_anything \<Rightarrow> blur_anything" where
  "adjustBlurIntensity change s =
     (let newIntensity = max 1 (min 10 (blurIntensity s + change)) in
      if newIntensity = blurIntensity s then
        (if newIntensity = 1 then emit [ShowToolbarNotification MinimumIntensity] s
         else if newIntensity = 10 then emit [ShowToolbarNotification MaximumIntensity] s
         else s)
      else
        emit [UpdateIntensityDisplay, UpdateBlurIntensity,
              ShowToolbarNotification (IntensityIs newIntensity), SaveIntensitySetting]
          (s\<lparr> blurIntensity := newIntensity \<rparr>))"

section \<open>The interaction mode machine\<close>

text \<open>
  \<open>setExclusiveMode(mode)\<close> refuses every mode but \<open>"none"\<close> while the extension is
  disabled; otherwise it clears the four flags, resets the cursor and sets the flag of
  the requested mode. Its calls into the page (\<open>cleanupTextSelectionMode\<close>,
  \<open>hideHoverIndicator\<close>, \<open>updateToolbarStates\<close>, \<open>updateDisabledState\<close>) write
  no field of the class but the document, and are left out here and below.
\<close>

datatype mode = BlurM | DrawM | TextM | EraserM | NoneM

definition setExclusiveMode :: "mode \<Rightarrow> blur_anything \<Rightarrow> blur_anything" where
  "setExclusiveMode m s =
     (if \<not> isEnabled s \<and> m \<noteq> NoneM then s
      else
        let s1 = s\<lparr> isBlurMode := False, isDrawingMode := False,
                      isTextSelectionMode := False, isEraserMode := False,
                      bodyCursor := ''default'' \<rparr>
        in (case m of
              BlurM \<Rightarrow> s1\<lparr> isBlurMode := True, bodyCursor := ''pointer'' \<rparr>
            | DrawM \<Rightarrow> s1\<lparr> isDrawingMode := True, bodyCursor := ''crosshair'' \<rparr>
            | TextM \<Rightarrow> s1\<lparr> isTextSelectionMode := True, bodyCursor := ''text'' \<rparr>
            | EraserM \<Rightarrow> s1\<lparr> isEraserMode := True, bodyCursor := ''crosshair'' \<rparr>
            | NoneM \<Rightarrow> s1))"

text \<open>The four mode buttons of the floating toolbar and its close button.\<close>

datatype toolbar_button =
  ToolbarBlurMode | ToolbarDrawMode | ToolbarTextMode | ToolbarEraserMode | ToolbarClose

definition toolbarClick :: "toolbar_button \<Rightarrow> blur_anything \<Rightarrow> blur_anything" where
  "toolbarClick b s =
     (case b of
        ToolbarBlurMode \<Rightarrow>
          if isBlurMode s then setExclusiveMode NoneM s else setExclusiveMode BlurM s
      | ToolbarDrawMode \<Rightarrow>
          if isDrawingMode s then setExclusiveMode NoneM s else setExclusiveMode DrawM s
      | ToolbarTextMode \<Rightarrow>
          if isTextSelectionMode s then setExclusiveMode NoneM s else setExclusiveMode TextM s
      | ToolbarEraserMode \<Rightarrow>
          if isEraserMode s then setExclusiveMode NoneM s else setExclusiveMode EraserM s
      | ToolbarClose \<Rightarrow> setExclusiveMode NoneM s)"

text \<open>
  The cases of \<open>handleMessage\<close> that write a mode flag or \<open>isEnabled\<close>. The cases
  \<open>toggleDrawMode\<close> and \<open>toggleEraserMode\<close> negate their own flag and touch no other.
\<close>

datatype message =
    ToggleExtension
  | ToggleDrawMode
  | ToggleEraserMode
  | ShowToolbar
  | HideToolbar
  | SettingsUpdated bool int

definition handleMessage :: "message \<Rightarrow> blur_anything \<Rightarrow> blur_anything" where
  "handleMessage msg s =
     (case msg of
        SettingsUpdated e i \<Rightarrow> s\<lparr> isEnabled := e, blurIntensity := i \<rparr>
      | ToggleExtension \<Rightarrow>
          (let s1 = s\<lparr> isEnabled := \<not> isEnabled s \<rparr> in
           if \<not> isEnabled s1 then
             s1\<lparr> isBlurMode := False, isDrawingMode := False,
                  isTextSelectionMode := False, isEraserMode := False,
                  bodyCursor := ''default'' \<rparr>
           else setExclusiveMode BlurM s1)
      | ToggleDrawMode \<Rightarrow>
          if \<not> isEnabled s then s
          else s\<lparr> isDrawingMode := \<not> isDrawingMode s,
                  bodyCursor := (if \<not> isDrawingMode s then ''crosshair'' else ''default'') \<rparr>
      | ToggleEraserMode \<Rightarrow>
          if \<not> isEnabled s then s
          else s\<lparr> isEraserMode := \<not> isEraserMode s,
                  bodyCursor := (if \<not> isEraserMode s then ''crosshair'' else ''default'') \<rparr>
      | ShowToolbar \<Rightarrow> if isEnabled s then setExclusiveMode BlurM s else s
      | HideToolbar \<Rightarrow>
          s\<lparr> isBlurMode := False, isDrawingMode := False,
               isTextSelectionMode := False, isEraserMode := False,
               bodyCursor := ''default'' \<rparr>)"

text \<open>\<open>handleKeyDown\<close>: Ctrl/Cmd+Shift+B toggles the draw mode, Escape leaves draw and eraser mode.\<close>

datatype key = CtrlShiftB | Escape | OtherKey

definition hideDrawingOverlay :: "blur_anything \<Rightarrow> blur_anything" where
  "hideDrawingOverlay s = s\<lparr> drawingOverlay := None \<rparr>"

definition handleKeyDown :: "key \<Rightarrow> blur_anything \<Rightarrow> blur_anything" where
  "handleKeyDown k s =
     (if \<not> isEnabled s then s
      else case k of
        CtrlShiftB \<Rightarrow>
          if isDrawingMode s then setExclusiveMode NoneM s else setExclusiveMode DrawM s
      | Escape \<Rightarrow>
          if isDrawingMode s \<or> isEraserMode s
          then hideDrawingOverlay (setExclusiveMode NoneM s) else s
      | OtherKey \<Rightarrow> s)"

text \<open>The number of gesture modes that are active, and the exclusivity of the modes.\<close>

definition active_modes :: "blur_anything \<Rightarrow> nat" where
  "active_modes s =
     (if isBlurMode s then 1 else 0) + (if isDrawingMode s then 1 else 0)
     + (if isTextSelectionMode s then 1 else 0) + (if isEraserMode s then 1 else 0)"

definition at_most_one_mode :: "blur_anything \<Rightarrow> bool" where
  "at_most_one_mode s = (active_modes s \<le> 1)"

section \<open>Drawing a region\<close>

text \<open>
  \<open>drawingOverlay\<close> is \<open>None\<close> for \<open>null\<close>, \<open>Some None\<close> for the overlay as
  \<open>createDrawingOverlay\<close> leaves it (no geometry yet) and \<open>Some (Some c)\<close> once
  \<open>handleMouseMove\<close> has written left, top, width and height. The argument
  \<open>onExtensionElement\<close> is the answer of \<open>isExtensionElement(event.target)\<close>.
\<close>

record mouse_event =
  pageX :: int
  pageY :: int

definition handleMouseDown :: "bool \<Rightarrow> mouse_event \<Rightarrow> blur_anything \<Rightarrow> blur_anything" where
  "handleMouseDown onExtensionElement event s =
     (if \<not> isEnabled s \<or> \<not> isDrawingMode s then s
      else if onExtensionElement then s
      else s\<lparr> startCoords := Some (pageX event, pageY event), drawingOverlay := Some None \<rparr>)"

definition handleMouseMove :: "mouse_event \<Rightarrow> blur_anything \<Rightarrow> blur_anything" where
  "handleMouseMove event s =
     (case (startCoords s, drawingOverlay s) of
        (Some start, Some ov) \<Rightarrow>
          if \<not> isEnabled s \<or> \<not> isDrawingMode s then s
          else s\<lparr> drawingOverlay := Some (Some
                 \<lparr> coord_x = min (pageX event) (fst start),
                   coord_y = min (pageY event) (snd start),
                   coord_width = \<bar>pageX event - fst start\<bar>,
                   coord_height = \<bar>pageY event - snd start\<bar> \<rparr>) \<rparr>
      | _ \<Rightarrow> s)"

text \<open>
  \<open>createBlurArea\<close> reads the overlay's box: \<open>rect\<close> is
  \<open>getBoundingClientRect()\<close> moved by the scroll offsets (x is \<open>rect.left + scrollX\<close>,
  y is \<open>rect.top + scrollY\<close>), \<open>now\<close> is \<open>Date.now()\<close>.
\<close>

definition createBlurArea :: "coords \<Rightarrow> int \<Rightarrow> blur_anything \<Rightarrow> blur_anything" where
  "createBlurArea rect now s =
     (if drawingOverlay s = None \<or> startCoords s = None then s
      else
        let effectiveIntensity = max 1 (blurIntensity s);
            blurData = \<lparr> selector = AreaSelector (coord_x rect) (coord_y rect),
                         btype = Area, coords = Some rect, btext = None,
                         timestamp = now \<rparr>;
            s1 = s\<lparr> blurredElements := blurredElements s @ [blurData] \<rparr>
        in emit [AppendBlurArea rect effectiveIntensity, IncrementDailyBlurCount,
                 ShowToolbarNotification (AreaCreated (length (blurredElements s1)))] s1)"

text \<open>
  The maximum rectangle of the user's tier: 200 by 200 for the free tier, \<open>Infinity\<close>
  (here \<open>None\<close>) for the premium tier.
\<close>

record max_size =
  max_width :: "int option"
  max_height :: "int option"

definition exceeds :: "int \<Rightarrow> int option \<Rightarrow> bool" where
  "exceeds v lim = (case lim of None \<Rightarrow> False | Some m \<Rightarrow> m < v)"

definition handleMouseUp ::
  "mouse_event \<Rightarrow> max_size \<Rightarrow> bool \<Rightarrow> coords \<Rightarrow> int \<Rightarrow> blur_anything \<Rightarrow> blur_anything" where
  "handleMouseUp event maxSize canAddBlur rect now s =
     (case (startCoords s, drawingOverlay s) of
        (Some start, Some ov) \<Rightarrow>
          if \<not> isEnabled s \<or> \<not> isDrawingMode s then s
          else
            let w = \<bar>pageX event - fst start\<bar>;
                h = \<bar>pageY event - snd start\<bar>
            in if w < 10 \<or> h < 10 then
                 (hideDrawingOverlay s)\<lparr> startCoords := None \<rparr>
               else if exceeds w (max_width maxSize) \<or> exceeds h (max_height maxSize) then
                 (hideDrawingOverlay (emit [ShowUpgradeNotification RectangleSize] s))
                   \<lparr> startCoords := None \<rparr>
               else if \<not> canAddBlur then
                 (hideDrawingOverlay (emit [ShowUpgradeNotification DailyLimit] s))
                   \<lparr> startCoords := None \<rparr>
               else (hideDrawingOverlay (createBlurArea rect now s))\<lparr> startCoords := None \<rparr>
      | _ \<Rightarrow> s)"

section \<open>Point marks and text marks\<close>

text \<open>
  \<open>unblurElement\<close> removes every mark with the selector and saves; \<open>blurElement\<close>
  takes the selector that \<open>generateSelector(element)\<close> returned, the two answers of the
  freemium service, whether \<open>applyBlurToElement\<close> throws, and \<open>Date.now()\<close>.
\<close>

definition unblurElement :: "css_selector \<Rightarrow> blur_anything \<Rightarrow> blur_anything" where
  "unblurElement sel s =
     (let s1 = s\<lparr> blurredElements := filter (\<lambda>blur. selector blur \<noteq> sel) (blurredElements s) \<rparr>
      in emit [RemoveBlurFromElement sel, RebuildInjectedCSS,
               SaveBlurData (blurredElements s1)] s1)"

definition blurElement ::
  "css_selector \<Rightarrow> bool \<Rightarrow> bool \<Rightarrow> bool \<Rightarrow> int \<Rightarrow> blur_anything \<Rightarrow> blur_anything" where
  "blurElement sel canUseClick canAddBlur applyThrows now s =
     (if \<not> canUseClick then emit [ShowUpgradeNotification ClickBlur] s
      else if \<not> canAddBlur then emit [ShowUpgradeNotification BlurLimit] s
      else if find (\<lambda>blur. selector blur = sel) (blurredElements s) \<noteq> None
        then unblurElement sel s
      else if applyThrows then s
      else
        emit [ApplyBlurToElement sel, IncrementDailyBlurCount]
          (s\<lparr> blurredElements := blurredElements s @
                [\<lparr> selector = sel, btype = Element, coords = None, btext = None,
                   timestamp = now \<rparr>] \<rparr>))"

text \<open>
  Strings. A character of the model is one of the 256 characters of the type \<open>char\<close>,
  read as the code points U+0000 to U+00FF; a text of the page with another code point
  has no counterpart. Of the white space of ECMAScript (\<open>String.prototype.trim\<close>, the
  class \<^verbatim>\<open>\s\<close>) these are seven: space, tab, line feed, vertical tab, form feed,
  carriage return and the no-break space U+00A0. The white space at which the document
  cuts a class attribute into tokens is ASCII white space, which does not hold the
  vertical tab and the no-break space.
\<close>

definition is_space :: "char \<Rightarrow> bool" where
  "is_space c =
     (c \<in> set [CHR '' '', CHR 0x09, CHR 0x0A, CHR 0x0B, CHR 0x0C, CHR 0x0D, CHR 0xA0])"

definition ascii_whitespace :: "char \<Rightarrow> bool" where
  "ascii_whitespace c = (c \<in> set [CHR '' '', CHR 0x09, CHR 0x0A, CHR 0x0C, CHR 0x0D])"

definition trim :: "string \<Rightarrow> string" where
  "trim t = rev (dropWhile is_space (rev (dropWhile is_space t)))"

text \<open>
  \<open>words_by sep t\<close> are the maximal runs of characters of \<open>t\<close> that are no separators:
  \<^verbatim>\<open>t.trim().split(/\s+/)\<close> for a text that is not blank, with \<open>is_space\<close>, and the
  tokens of an attribute, with \<open>ascii_whitespace\<close>. \<open>split_at sep t\<close> is
  \<^verbatim>\<open>t.split(sep)\<close> for a separator of one character: it keeps the empty pieces.
  \<open>join_with sep ts\<close> is \<^verbatim>\<open>ts.join(sep)\<close>.
\<close>

fun split_runs :: "(char \<Rightarrow> bool) \<Rightarrow> string \<Rightarrow> string \<Rightarrow> string list" where
  "split_runs sep cur [] = (if cur = [] then [] else [cur])"
| "split_runs sep cur (c # cs) =
     (if sep c then (if cur = [] then split_runs sep [] cs else cur # split_runs sep [] cs)
      else split_runs sep (cur @ [c]) cs)"

definition words_by :: "(char \<Rightarrow> bool) \<Rightarrow> string \<Rightarrow> string list" where
  "words_by sep t = split_runs sep [] t"

fun split_pieces :: "char \<Rightarrow> string \<Rightarrow> string \<Rightarrow> string list" where
  "split_pieces sep cur [] = [cur]"
| "split_pieces sep cur (c # cs) =
     (if c = sep then cur # split_pieces sep [] cs else split_pieces sep (cur @ [c]) cs)"

definition split_at :: "char \<Rightarrow> string \<Rightarrow> string list" where
  "split_at sep t = split_pieces sep [] t"

fun join_with :: "string \<Rightarrow> string list \<Rightarrow> string" where
  "join_with sep [] = []"
| "join_with sep [t] = t"
| "join_with sep (t # u # ts) = t @ sep @ join_with sep (u # ts)"

text \<open>
  What \<open>handleTextSelection\<close> reads from the page: whether there is a selection with
  a range, its text, whether the cloned contents hold an image or icon, whether the
  common ancestor is or holds a text blur or lies in the toolbar, the answer of
  \<open>canSafelyWrapSelection\<close>, and whether replacing the contents by the span throws.
\<close>

record text_selection =
  sel_present :: bool
  sel_text :: string
  sel_hasImages :: bool
  sel_touchesBlur :: bool
  sel_canSafelyWrap :: bool
  sel_insertThrows :: bool

definition handleTextSelection ::
  "bool \<Rightarrow> bool \<Rightarrow> int option \<Rightarrow> text_selection \<Rightarrow> string \<Rightarrow> int
    \<Rightarrow> blur_anything \<Rightarrow> blur_anything" where
  "handleTextSelection featureAccess canAddBlur maxTextLength sel uniqueId now s =
     (if \<not> isEnabled s \<or> \<not> isTextSelectionMode s then s
      else if \<not> featureAccess then s
      else if \<not> canAddBlur then emit [ShowUpgradeNotification DailyLimit] s
      else if \<not> sel_present sel then s
      else
        let selectedText = trim (sel_text sel) in
        if length selectedText = 0 then s
        else if exceeds (int (length selectedText)) maxTextLength then
          emit [ShowToolbarNotification TextTooLong, RemoveAllRanges] s
        else if sel_hasImages sel then
          emit [RemoveAllRanges, ShowToolbarNotification NoImages] s
        else if filter (\<lambda>c. \<not> is_space c) selectedText = [] then emit [RemoveAllRanges] s
        else if sel_touchesBlur sel then emit [RemoveAllRanges] s
        else if \<not> sel_canSafelyWrap sel then
          emit [ShowToolbarNotification ComplexSelection, RemoveAllRanges] s
        else if sel_insertThrows sel then
          emit [ShowToolbarNotification FailedToBlurText, RemoveAllRanges] s
        else
          emit [IncrementDailyBlurCount, RemoveAllRanges,
                ShowToolbarNotification (Blurred (take 30 selectedText))]
            (s\<lparr> blurredElements := blurredElements s @
                  [\<lparr> selector = IdSelector uniqueId, btype = TextBlur, coords = None,
                     btext = Some selectedText, timestamp = now \<rparr>] \<rparr>))"

text \<open>
  \<open>eraseBlur\<close>, by what was clicked: a blurred element (with the selector found for
  it), a text blur span (its id, empty when it has none, and its text content), a blur
  area (its \<open>data-coords\<close> attribute, parsed), or anything else.
\<close>

datatype erase_target =
    EraseElement css_selector
  | EraseText string string
  | EraseArea "(int \<times> int) option"
  | EraseNothing

definition eraseBlur :: "erase_target \<Rightarrow> blur_anything \<Rightarrow> blur_anything" where
  "eraseBlur target s =
     (case target of
        EraseElement sel \<Rightarrow> unblurElement sel s
      | EraseText elementId textContent \<Rightarrow>
          (let l1 = (if elementId \<noteq> [] then
                       filter (\<lambda>blur. selector blur \<noteq> IdSelector elementId) (blurredElements s)
                     else blurredElements s);
               l2 = (if trim textContent \<noteq> [] then
                       filter (\<lambda>blur.
                         case btext blur of
                           Some t \<Rightarrow>
                             if btype blur = TextBlur \<and> t \<noteq> []
                             then trim t \<noteq> trim textContent else True
                         | None \<Rightarrow> True) l1
                     else l1)
           in emit [SaveBlurData l2] (s\<lparr> blurredElements := l2 \<rparr>))
      | EraseArea None \<Rightarrow> s
      | EraseArea (Some xy) \<Rightarrow>
          s\<lparr> blurredElements :=
               filter (\<lambda>blur. map_option coord_x (coords blur) \<noteq> Some (fst xy)
                              \<or> map_option coord_y (coords blur) \<noteq> Some (snd xy))
                 (blurredElements s) \<rparr>
      | EraseNothing \<Rightarrow> s)"

definition clearAllBlurs :: "blur_anything \<Rightarrow> blur_anything" where
  "clearAllBlurs s = emit [SaveBlurData []] (s\<lparr> blurredElements := [] \<rparr>)"

section \<open>Operations of a session\<close>

text \<open>
  One constructor for each entry point above, with what the entry point reads from its
  event and from its collaborators; \<open>run\<close> applies a sequence of them in order.
\<close>

datatype operation =
    SetExclusiveModeOp mode
  | ToolbarClickOp toolbar_button
  | MessageOp message
  | KeyDownOp key
  | AdjustIntensityOp int
  | MouseDownOp bool mouse_event
  | MouseMoveOp mouse_event
  | MouseUpOp mouse_event max_size bool coords int
  | BlurElementOp css_selector bool bool bool int
  | TextSelectionOp bool bool "int option" text_selection string int
  | EraseOp erase_target
  | ClearAllOp

fun step :: "operation \<Rightarrow> blur_anything \<Rightarrow> blur_anything" where
  "step (SetExclusiveModeOp m) s = setExclusiveMode m s"
| "step (ToolbarClickOp b) s = toolbarClick b s"
| "step (MessageOp msg) s = handleMessage msg s"
| "step (KeyDownOp k) s = handleKeyDown k s"
| "step (AdjustIntensityOp c) s = adjustBlurIntensity c s"
| "step (MouseDownOp onExt e) s = handleMouseDown onExt e s"
| "step (MouseMoveOp e) s = handleMouseMove e s"
| "step (MouseUpOp e maxSize canAdd rect now) s = handleMouseUp e maxSize canAdd rect now s"
| "step (BlurElementOp sel canUse canAdd applyThrows now) s =
     blurElement sel canUse canAdd applyThrows now s"
| "step (TextSelectionOp access canAdd maxLen sel uid now) s =
     handleTextSelection access canAdd maxLen sel uid now s"
| "step (EraseOp target) s = eraseBlur target s"
| "step ClearAllOp s = clearAllBlurs s"

fun run :: "operation list \<Rightarrow> blur_anything \<Rightarrow> blur_anything" where
  "run [] s = s"
| "run (c # cs) s = run cs (step c s)"

text \<open>
  The kind of a mark determines its optional fields: an element mark has neither
  coordinates nor text, an area mark has coordinates and no text, a text mark has a
  (non-empty) text and no coordinates.
\<close>

definition kind_determines_fields :: "blur_data \<Rightarrow> bool" where
  "kind_determines_fields m =
     (case btype m of
        Element \<Rightarrow> coords m = None \<and> btext m = None
      | Area \<Rightarrow> coords m \<noteq> None \<and> btext m = None
      | TextBlur \<Rightarrow> coords m = None \<and> btext m \<noteq> None \<and> btext m \<noteq> Some [])"

text \<open>
  The operations that change the mode through \<open>setExclusiveMode\<close> or clear all four
  flags: every operation but the two message cases that negate one flag.
\<close>

fun through_setExclusiveMode :: "operation \<Rightarrow> bool" where
  "through_setExclusiveMode (MessageOp ToggleDrawMode) = False"
| "through_setExclusiveMode (MessageOp ToggleEraserMode) = False"
| "through_setExclusiveMode _ = True"

section \<open>Persistence\<close>

text \<open>
  The local shadow copy is the item \<^verbatim>\<open>blur-anything-data\<close> of \<open>localStorage\<close>, the JSON
  text of \<^verbatim>\<open>{url, blurData, timestamp}\<close>. The model keeps what reading the item gives:
  no item, a text that \<open>JSON.parse\<close> or the property reads reject, or the parsed record
  (\<open>ld_blurData\<close> is \<open>None\<close> when the property is missing or falsy).
\<close>

record local_data =
  ld_url :: string
  ld_blurData :: "blur_data list option"
  ld_timestamp :: int

datatype local_item = NoItem | Unparseable | Parsed local_data

definition saveBlurDataLocally ::
  "string \<Rightarrow> int \<Rightarrow> bool \<Rightarrow> blur_anything \<Rightarrow> local_item \<Rightarrow> local_item" where
  "saveBlurDataLocally href now setItemThrows s item =
     (if setItemThrows then item
      else Parsed \<lparr> ld_url = href, ld_blurData = Some (blurredElements s),
                    ld_timestamp = now \<rparr>)"

definition loadBlurDataLocally :: "string \<Rightarrow> local_item \<Rightarrow> blur_data list" where
  "loadBlurDataLocally href item =
     (case item of
        Parsed d \<Rightarrow>
          (case ld_blurData d of
             Some l \<Rightarrow> if ld_url d = href then l else []
           | None \<Rightarrow> [])
      | _ \<Rightarrow> [])"

text \<open>
  The background worker keeps the in-extension store: the object \<open>blurredElements\<close> of
  \<open>storage.sync\<close>, keyed by URL. Its \<open>saveBlurData\<close> case writes only when the message
  has a truthy \<open>url\<close>; its \<open>getBlurData\<close> case answers the list of the URL or \<open>[]\<close>.
\<close>

type_synonym sync_store = "string \<Rightarrow> blur_data list option"

definition background_saveBlurData :: "save_message \<Rightarrow> sync_store \<Rightarrow> sync_store" where
  "background_saveBlurData msg store =
     (case msg_url msg of
        Some saveUrl \<Rightarrow> if saveUrl \<noteq> [] then store(saveUrl \<mapsto> msg_blurData msg) else store
      | None \<Rightarrow> store)"

definition background_getBlurData :: "string \<Rightarrow> sync_store \<Rightarrow> blur_data list" where
  "background_getBlurData url store = (case store url of Some l \<Rightarrow> l | None \<Rightarrow> [])"

text \<open>
  The message that \<open>saveBlurData\<close> sends to the worker carries the page's URL.
\<close>

definition saveBlurData_message :: "string \<Rightarrow> blur_anything \<Rightarrow> save_message" where
  "saveBlurData_message href s = \<lparr> msg_url = Some href, msg_blurData = blurredElements s \<rparr>"

text \<open>
  What \<open>loadBlurData\<close> meets: the page's URL, whether the user is signed in, what
  \<open>syncService.loadBlurData\<close> does, whether \<open>runtime.sendMessage\<close> resolves, and the
  local item.
\<close>

datatype 'a outcome = Throws | Returns 'a

record load_env =
  env_href :: string
  env_authenticated :: bool
  env_firebase :: "blur_data list outcome"
  env_messaging :: bool
  env_local :: local_item

text \<open>
  \<open>syncLocalDataIfNeeded\<close>: the message it sends is
  \<^verbatim>\<open>{action: "saveBlurData", blurData: this.blurredElements}\<close>, with no \<open>url\<close>.
\<close>

definition syncLocalDataIfNeeded ::
  "load_env \<Rightarrow> blur_anything \<Rightarrow> sync_store \<Rightarrow> blur_anything \<times> sync_store" where
  "syncLocalDataIfNeeded env s store =
     (case env_local env of
        Parsed d \<Rightarrow>
          (case ld_blurData d of
             Some l \<Rightarrow>
               if ld_url d = env_href env \<and> 0 < length l \<and> ld_timestamp d \<noteq> 0 then
                 (let localCount = length l;
                      extensionCount = length (blurredElements s)
                  in if extensionCount < localCount then
                       (s\<lparr> blurredElements := l \<rparr>,
                        if env_messaging env
                        then background_saveBlurData
                               \<lparr> msg_url = None, msg_blurData = l \<rparr> store
                        else store)
                     else (s, store))
               else (s, store)
           | None \<Rightarrow> (s, store))
      | _ \<Rightarrow> (s, store))"

definition loadBlurData ::
  "load_env \<Rightarrow> blur_anything \<Rightarrow> sync_store \<Rightarrow> blur_anything \<times> sync_store" where
  "loadBlurData env s store =
     (let firebaseData =
            (if env_authenticated env then
               (case env_firebase env of
                  Returns l \<Rightarrow> if 0 < length l then Some l else None
                | Throws \<Rightarrow> None)
             else None)
      in case firebaseData of
           Some l \<Rightarrow> (s\<lparr> blurredElements := l \<rparr>, store)
         | None \<Rightarrow>
             if env_messaging env then
               syncLocalDataIfNeeded env
                 (s\<lparr> blurredElements := background_getBlurData (env_href env) store \<rparr>) store
             else
               (s\<lparr> blurredElements := loadBlurDataLocally (env_href env) (env_local env) \<rparr>,
                store))"

section \<open>The effect applier\<close>

text \<open>
  An element, by what the applier reads and writes: its lower-case tag name, its id,
  the text of its class attribute, its other attributes, and its inline style as the
  ordered list of declarations (property, value, \<open>!important\<close>) of its
  \<open>CSSStyleDeclaration\<close>.
  \<open>connected\<close> says that the element has a parent and is in the document,
  \<open>displayed\<close> that its computed style is neither \<open>display: none\<close> nor
  \<open>visibility: hidden\<close>. A filter value is a list of filter functions, the keyword
  \<open>none\<close>, or another keyword.
\<close>

datatype filter_fn = BlurFn int | OtherFn string

datatype css_value = Filters "filter_fn list" | NoneValue | Other string

type_synonym style_declaration = "string \<times> css_value \<times> bool"

record element =
  tagName :: string
  elementId :: string
  className :: string
  attributes :: "(string \<times> string) list"
  style :: "style_declaration list"
  connected :: bool
  displayed :: bool

definition getPropertyValue :: "string \<Rightarrow> element \<Rightarrow> css_value option" where
  "getPropertyValue p e = map_option fst (map_of (style e) p)"

definition removeProperty :: "string \<Rightarrow> element \<Rightarrow> element" where
  "removeProperty p e = e\<lparr> style := filter (\<lambda>d. fst d \<noteq> p) (style e) \<rparr>"

text \<open>
  Setting a property writes the declaration in place when the style has one for the
  property and appends it otherwise.
\<close>

definition set_declaration :: "string \<Rightarrow> css_value \<Rightarrow> bool \<Rightarrow> style_declaration list \<Rightarrow> style_declaration list" where
  "set_declaration p v important ds =
     (if p \<in> fst ` set ds
      then map (\<lambda>d. if fst d = p then (p, v, important) else d) ds
      else ds @ [(p, v, important)])"

definition setProperty :: "string \<Rightarrow> css_value \<Rightarrow> bool \<Rightarrow> element \<Rightarrow> element" where
  "setProperty p v important e = e\<lparr> style := set_declaration p v important (style e) \<rparr>"

text \<open>
  \<open>classList\<close> is the token set of the class attribute: its tokens in order, each
  once. \<open>classList.add\<close> and \<open>classList.remove\<close> change the set and write it back to
  the attribute, the tokens joined by single spaces; both are called with fixed class
  names only, which are tokens: no empty text, and no white space in them.
\<close>

definition ordered_set :: "'a list \<Rightarrow> 'a list" where
  "ordered_set xs = rev (remdups (rev xs))"

definition classList :: "element \<Rightarrow> string list" where
  "classList e = ordered_set (words_by ascii_whitespace (className e))"

definition classList_add :: "string \<Rightarrow> element \<Rightarrow> element" where
  "classList_add c e =
     e\<lparr> className :=
          join_with '' '' (if c \<in> set (classList e) then classList e else classList e @ [c]) \<rparr>"

definition classList_remove :: "string \<Rightarrow> element \<Rightarrow> element" where
  "classList_remove c e = e\<lparr> className := join_with '' '' (removeAll c (classList e)) \<rparr>"

definition class_token :: "string \<Rightarrow> bool" where
  "class_token t = (t \<noteq> [] \<and> list_all (\<lambda>c. \<not> ascii_whitespace c) t)"

definition hasAttribute :: "string \<Rightarrow> element \<Rightarrow> bool" where
  "hasAttribute a e = (a \<in> fst ` set (attributes e))"

definition getAttribute :: "string \<Rightarrow> element \<Rightarrow> string option" where
  "getAttribute a e = map_of (attributes e) a"

definition setAttribute :: "string \<Rightarrow> string \<Rightarrow> element \<Rightarrow> element" where
  "setAttribute a v e =
     e\<lparr> attributes :=
          (if a \<in> fst ` set (attributes e)
           then map (\<lambda>kv. if fst kv = a then (a, v) else kv) (attributes e)
           else attributes e @ [(a, v)]) \<rparr>"

definition removeAttribute :: "string \<Rightarrow> element \<Rightarrow> element" where
  "removeAttribute a e = e\<lparr> attributes := filter (\<lambda>kv. fst kv \<noteq> a) (attributes e) \<rparr>"

text \<open>
  \<open>canApplyBlurToElement\<close>. Its last check writes \<open>blur(0px)\<close> to \<open>style.filter\<close>,
  reads it back and writes the original text back: a style without the property is
  left as it was, and a filter declaration loses its \<open>!important\<close>. The written value
  reads back as written, so the branch for a failed read-back is not reached. The
  elements of the model are \<open>HTMLElement\<close>s.
\<close>

definition problematicTags :: "string list" where
  "problematicTags =
     [''html'', ''head'', ''title'', ''meta'', ''link'', ''script'', ''style'', ''noscript'',
      ''iframe'', ''embed'', ''object'', ''svg'', ''canvas'']"

definition canApplyBlurToElement :: "element \<Rightarrow> bool \<times> element" where
  "canApplyBlurToElement e =
     (if \<not> connected e then (False, e)
      else if \<not> displayed e then (False, e)
      else if tagName e \<in> set problematicTags then (False, e)
      else if hasAttribute ''readonly'' e \<or> hasAttribute ''disabled'' e then (False, e)
      else if getAttribute ''contenteditable'' e = Some ''false'' then (False, e)
      else
        (case getPropertyValue ''filter'' e of
           None \<Rightarrow> (True, e)
         | Some originalFilter \<Rightarrow> (True, setProperty ''filter'' originalFilter False e)))"

text \<open>
  \<open>applyBlurWithFallbacks\<close>, method 1: the blur functions of the current filter are
  cut out and \<open>blur(intensity px)\<close> is put at its end. After a keyword the text is
  no filter value, and the assignment leaves the declaration as it is; so it does for a
  negative intensity, which \<open>blur\<close> does not take. A write to the
  style of an \<open>HTMLElement\<close> does not throw, so the methods 2 to 4, which run only when
  the one before has thrown, are not reached.
\<close>

definition is_blur :: "filter_fn \<Rightarrow> bool" where
  "is_blur f = (case f of BlurFn i \<Rightarrow> True | OtherFn t \<Rightarrow> False)"

definition applyBlurWithFallbacks :: "int \<Rightarrow> element \<Rightarrow> element" where
  "applyBlurWithFallbacks intensity e =
     (if intensity < 0 then e
      else
        (case getPropertyValue ''filter'' e of
           None \<Rightarrow> setProperty ''filter'' (Filters [BlurFn intensity]) False e
         | Some (Filters fs) \<Rightarrow>
             setProperty ''filter''
               (Filters (filter (\<lambda>f. \<not> is_blur f) fs @ [BlurFn intensity])) False e
         | Some NoneValue \<Rightarrow> e
         | Some (Other t) \<Rightarrow> e))"

definition applyBlurToElement :: "int \<Rightarrow> element \<Rightarrow> element outcome" where
  "applyBlurToElement intensity e =
     (case canApplyBlurToElement e of
        (False, e1) \<Rightarrow> Throws
      | (True, e1) \<Rightarrow>
          Returns (setAttribute ''data-blur-applied'' ''true''
                    (classList_add ''blur-anything-blurred''
                      (applyBlurWithFallbacks intensity e1))))"

text \<open>
  The element after a call of \<open>applyBlurToElement\<close>, whether it returned or threw (it
  throws before it has written anything), and after a sequence of calls.
\<close>

definition after_apply :: "int \<Rightarrow> element \<Rightarrow> element" where
  "after_apply intensity e =
     (case applyBlurToElement intensity e of Returns e' \<Rightarrow> e' | Throws \<Rightarrow> e)"

fun after_applies :: "int list \<Rightarrow> element \<Rightarrow> element" where
  "after_applies [] e = e"
| "after_applies (i # is) e = after_applies is (after_apply i e)"

text \<open>
  \<open>removeBlurFromElement\<close>. Methods 1 and 2 remove the filter declaration. Method 3
  rewrites the text of the style attribute: the expression
  \<^verbatim>\<open>/filter\s*:\s*[^;]*;?/gi\<close> cuts, from every declaration whose property name ends in
  \<open>filter\<close>, all but the start of the name, which the parser then drops together with
  the declaration that follows it; the other declarations are read back as they were.
\<close>

definition ends_in_filter :: "string \<Rightarrow> bool" where
  "ends_in_filter p = (take 6 (rev p) = rev ''filter'')"

fun rewrite_style :: "bool \<Rightarrow> style_declaration list \<Rightarrow> style_declaration list" where
  "rewrite_style garbage [] = []"
| "rewrite_style garbage (d # ds) =
     (if ends_in_filter (fst d) then rewrite_style True ds
      else if garbage then rewrite_style False ds
      else d # rewrite_style False ds)"

definition removeBlurFromElement :: "element \<Rightarrow> element" where
  "removeBlurFromElement e =
     (let e1 = removeProperty ''filter'' e;
          e2 = removeProperty ''filter'' e1;
          e3 = e2\<lparr> style := rewrite_style False (style e2) \<rparr>;
          e4 = classList_remove ''blur-anything-blurred'' e3;
          e5 = removeAttribute ''data-blur-applied'' e4;
          e6 = removeAttribute ''data-blur-id'' e5;
          e7 = classList_remove ''blur-anything-text-blur'' e6;
          e8 = setProperty ''filter'' NoneValue True e7;
          e9 = setProperty ''backdrop-filter'' NoneValue True e8
      in setProperty ''opacity'' (Other ''1'') True e9)"

text \<open>What \<open>removeBlurFromElement\<close> reads of an element.\<close>

definition without_blur_marks :: "element \<Rightarrow> element" where
  "without_blur_marks e =
     e\<lparr> className := join_with '' '' (removeAll ''blur-anything-blurred'' (classList e)),
        attributes := filter (\<lambda>kv. fst kv \<noteq> ''data-blur-applied'') (attributes e),
        style := filter (\<lambda>d. fst d \<noteq> ''filter'') (style e) \<rparr>"

section \<open>Restoration\<close>

text \<open>
  The page, by what a restoration pass reads and writes: the elements of the document
  in document order (an element is named by its index in the list), the blur areas
  appended to the body, the text nodes under the body in document order, and the style
  sheets that \<open>preInjectBlurCSS\<close> has put into the head, the newest first. A blur area
  has the numbers of its \<open>data-coords\<close> attribute, the intensity of the blur of its
  inline \<open>backdrop-filter\<close> (\<open>None\<close> when the inline style has no blur) and the box of
  its inline style (\<open>None\<close> before the style is written). A text node has its text and
  the answers of the tree walker's filter about its parent: whether the parent has the
  class \<open>blur-anything-text-blur\<close> and whether it belongs to the extension's own user
  interface.

  Four counters record what restoration has done to a target: \<open>applyCalls\<close> counts, for
  every element, the calls of \<open>applyBlurToElement\<close> on it that returned,
  \<open>textRestores\<close> the calls of \<open>restoreTextBlurBySelector\<close> that wrote its style,
  \<open>area_overlayCalls\<close> the calls of \<open>createProperBlurOverlay\<close> on a blur area, and
  \<open>tn_wrappers\<close> the text blur spans put around a text. The code has no such counters.
\<close>

record blur_area =
  area_coords :: "int \<times> int"
  area_backdrop :: "int option"
  area_box :: "coords option"
  area_overlayCalls :: nat

record text_node =
  tn_text :: string
  tn_inTextBlur :: bool
  tn_inExtensionUI :: bool
  tn_wrappers :: nat

datatype css_rule = FilterRule css_selector int | BackdropRule coords int

record page =
  elements :: "element list"
  applyCalls :: "nat list"
  textRestores :: "nat list"
  areas :: "blur_area list"
  textNodes :: "text_node list"
  styleSheets :: "css_rule list list"

text \<open>
  What the document answers to a query depends on the whole tree; a pass takes the
  answers as functions of the page. \<open>query\<close> is \<open>document.querySelector\<close> (it throws
  on a selector it cannot parse), \<open>simplifiedQuery\<close> is the element found by the first
  of the three simplified selectors of \<open>createFallbackSelector\<close> that resolves,
  \<open>recoveryId\<close> is the text \<^verbatim>\<open>blur-recovery-${index}-${Date.now()}\<close>, and \<open>blurIdQuery\<close> is
  the element found by the \<open>data-blur-id\<close> cut out of the stored selector. An index
  outside the list counts as no element.
\<close>

record dom_oracle =
  query :: "page \<Rightarrow> css_selector \<Rightarrow> nat option outcome"
  simplifiedQuery :: "page \<Rightarrow> css_selector \<Rightarrow> nat option"
  recoveryId :: "nat \<Rightarrow> string"
  blurIdQuery :: "page \<Rightarrow> css_selector \<Rightarrow> nat option"

definition in_page :: "page \<Rightarrow> nat option \<Rightarrow> nat option" where
  "in_page p r = (case r of Some k \<Rightarrow> if k < length (elements p) then Some k else None
                  | None \<Rightarrow> None)"

definition bump :: "nat \<Rightarrow> nat list \<Rightarrow> nat list" where
  "bump k counts = (if k < length counts then counts[k := Suc (counts ! k)] else counts)"

text \<open>
  \<open>createFallbackSelector\<close>, together with the \<open>document.querySelector\<close> that its
  caller runs on the selector it returns: the result is the element found. The methods
  1 to 3 return a selector that has just resolved. Method 4 walks the elements in
  document order, gives the first one without a \<open>data-blur-fallback\<close> attribute the
  recovery id as that attribute, and returns the attribute selector for the id, which
  resolves to the first element that carries the id. The walk of the model ends with
  the list of elements; the blur areas and text blur spans that the extension has
  added to the document are not in it.
\<close>

fun first_index :: "('a \<Rightarrow> bool) \<Rightarrow> 'a list \<Rightarrow> nat option" where
  "first_index P [] = None"
| "first_index P (x # xs) = (if P x then Some 0 else map_option Suc (first_index P xs))"

definition createFallbackSelector ::
  "dom_oracle \<Rightarrow> blur_data \<Rightarrow> nat \<Rightarrow> page \<Rightarrow> nat option \<times> page" where
  "createFallbackSelector doc blurData index p =
     (case in_page p (simplifiedQuery doc p (selector blurData)) of
        Some k \<Rightarrow> (Some k, p)
      | None \<Rightarrow>
          (case first_index (\<lambda>el. \<not> hasAttribute ''data-blur-fallback'' el) (elements p) of
             None \<Rightarrow> (None, p)
           | Some i \<Rightarrow>
               let fallbackId = recoveryId doc index;
                   p1 = p\<lparr> elements :=
                            (elements p)[i := setAttribute ''data-blur-fallback'' fallbackId
                                                (elements p ! i)] \<rparr>
               in (first_index (\<lambda>el. getAttribute ''data-blur-fallback'' el = Some fallbackId)
                     (elements p1), p1)))"

text \<open>
  An element mark: the branch of \<open>applyExistingBlurs\<close> for \<open>type === "element"\<close>. The
  result says whether \<open>markBlurForCleanup(index)\<close> was called.
\<close>

definition restore_element_mark ::
  "dom_oracle \<Rightarrow> int \<Rightarrow> blur_data \<Rightarrow> nat \<Rightarrow> page \<Rightarrow> bool \<times> page" where
  "restore_element_mark doc intensity blurData index p =
     (if selector blurData = RawSelector [] then (False, p)
      else
        let (found, p0) =
              (case query doc p (selector blurData) of
                 Returns r \<Rightarrow> (in_page p r, p)
               | Throws \<Rightarrow>
                   (case createFallbackSelector doc blurData index p of
                      (Some k, p1) \<Rightarrow> (Some k, p1)
                    | (None, p1) \<Rightarrow> (in_page p1 (blurIdQuery doc p1 (selector blurData)), p1)))
        in case found of
             None \<Rightarrow> (True, p0)
           | Some k \<Rightarrow>
               (case canApplyBlurToElement (elements p0 ! k) of
                  (False, e1) \<Rightarrow> (False, p0)
                | (True, e1) \<Rightarrow>
                    if ''blur-anything-blurred'' \<in> set (classList e1)
                    then (False, p0\<lparr> elements := (elements p0)[k := e1] \<rparr>)
                    else
                      (case applyBlurToElement intensity e1 of
                         Returns e2 \<Rightarrow>
                           (False, p0\<lparr> elements := (elements p0)[k := e2],
                                        applyCalls := bump k (applyCalls p0) \<rparr>)
                       | Throws \<Rightarrow> (False, p0\<lparr> elements := (elements p0)[k := e1] \<rparr>))))"

text \<open>
  An area mark. \<open>createProperBlurOverlay\<close> assigns \<open>blur(intensity px)\<close> to the inline
  \<open>backdrop-filter\<close> (and to \<open>-webkit-backdrop-filter\<close>, and a colour to the
  background, which the model leaves out); the assignment of a negative intensity,
  which \<open>blur\<close> does not take, leaves the style as it is. \<open>recreateBlurArea\<close> calls it on the new area and
  then assigns \<open>style.cssText\<close>, which replaces the whole inline style: the area it
  appends has no \<open>backdrop-filter\<close>. A later pass finds the area by its \<open>data-coords\<close>
  and, as its inline style has no blur, calls \<open>createProperBlurOverlay\<close> on it again.
\<close>

definition areValidCoordinates :: "coords \<Rightarrow> bool" where
  "areValidCoordinates c =
     (0 < coord_width c \<and> 0 < coord_height c \<and> 0 \<le> coord_x c \<and> 0 \<le> coord_y c)"

definition createProperBlurOverlay :: "int \<Rightarrow> blur_area \<Rightarrow> blur_area" where
  "createProperBlurOverlay intensity a =
     (if intensity < 0 then a else a\<lparr> area_backdrop := Some intensity \<rparr>)
       \<lparr> area_overlayCalls := Suc (area_overlayCalls a) \<rparr>"

definition recreateBlurArea :: "int \<Rightarrow> coords \<Rightarrow> page \<Rightarrow> page" where
  "recreateBlurArea intensity c p =
     (let blurArea = \<lparr> area_coords = (coord_x c, coord_y c), area_backdrop = None,
                       area_box = None, area_overlayCalls = 0 \<rparr>;
          blurArea1 = createProperBlurOverlay intensity blurArea;
          blurArea2 = blurArea1\<lparr> area_backdrop := None, area_box := Some c \<rparr>
      in p\<lparr> areas := areas p @ [blurArea2] \<rparr>)"

fun blur_first_area :: "int \<times> int \<Rightarrow> int \<Rightarrow> blur_area list \<Rightarrow> blur_area list" where
  "blur_first_area xy intensity [] = []"
| "blur_first_area xy intensity (a # as) =
     (if area_coords a = xy then
        (if area_backdrop a = None then createProperBlurOverlay intensity a else a) # as
      else a # blur_first_area xy intensity as)"

definition restore_area_mark :: "int \<Rightarrow> coords \<Rightarrow> page \<Rightarrow> page" where
  "restore_area_mark intensity c p =
     (if \<not> areValidCoordinates c then p
      else if (coord_x c, coord_y c) \<notin> area_coords ` set (areas p)
        then recreateBlurArea intensity c p
      else p\<lparr> areas := blur_first_area (coord_x c, coord_y c) intensity (areas p) \<rparr>)"

text \<open>
  A text mark. \<open>restoreTextBlurBySelector\<close> writes the three style properties to the
  element the selector resolves to, whether the element has the class
  \<open>blur-anything-text-blur\<close> or not, and adds the class when the element lacks it.
  \<open>findAndBlurTextContent\<close> walks the text nodes, skips those whose parent is a text
  blur or part of the extension's interface, and wraps the first occurrence of the
  text in the first node that holds it: the node is split into the text before, the
  wrapped text and the text after.
\<close>

definition restoreTextBlurBySelector :: "int \<Rightarrow> element \<Rightarrow> element" where
  "restoreTextBlurBySelector intensity e =
     (let styled = (\<lambda>e0. setProperty ''cursor'' (Other ''pointer'') False
                      (setProperty ''transition'' (Other ''filter 0.3s ease'') False
                        (if intensity < 0 then e0
                         else setProperty ''filter'' (Filters [BlurFn intensity]) False e0)))
      in if ''blur-anything-text-blur'' \<in> set (classList e) then styled e
         else styled (classList_add ''blur-anything-text-blur'' e))"

fun indexOf :: "string \<Rightarrow> string \<Rightarrow> nat option" where
  "indexOf [] pat = (if pat = [] then Some 0 else None)"
| "indexOf (c # cs) pat =
     (if take (length pat) (c # cs) = pat then Some 0
      else map_option Suc (indexOf cs pat))"

fun wrap_first :: "string \<Rightarrow> text_node list \<Rightarrow> text_node list option" where
  "wrap_first searchText [] = None"
| "wrap_first searchText (n # ns) =
     (if \<not> tn_inTextBlur n \<and> \<not> tn_inExtensionUI n
         \<and> indexOf (trim (tn_text n)) searchText \<noteq> None
      then
        (case indexOf (tn_text n) searchText of
           Some k \<Rightarrow>
             Some (n\<lparr> tn_text := take k (tn_text n) \<rparr>
                   # \<lparr> tn_text = searchText, tn_inTextBlur = True, tn_inExtensionUI = False,
                       tn_wrappers = Suc (tn_wrappers n) \<rparr>
                   # n\<lparr> tn_text := drop (k + length searchText) (tn_text n) \<rparr>
                   # ns)
         | None \<Rightarrow> map_option (\<lambda>r. n # r) (wrap_first searchText ns))
      else map_option (\<lambda>r. n # r) (wrap_first searchText ns))"

definition findAndBlurTextContent :: "string \<Rightarrow> page \<Rightarrow> page option" where
  "findAndBlurTextContent textContent p =
     (if length (trim textContent) < 2 then None
      else map_option (\<lambda>ns. p\<lparr> textNodes := ns \<rparr>) (wrap_first (trim textContent) (textNodes p)))"

definition restore_text_mark ::
  "dom_oracle \<Rightarrow> int \<Rightarrow> blur_data \<Rightarrow> nat \<Rightarrow> page \<Rightarrow> bool \<times> page" where
  "restore_text_mark doc intensity blurData index p =
     (case query doc p (selector blurData) of
        Throws \<Rightarrow> (False, p)
      | Returns r \<Rightarrow>
          (case in_page p r of
             Some k \<Rightarrow>
               (False, p\<lparr> elements :=
                            (elements p)[k := restoreTextBlurBySelector intensity (elements p ! k)],
                          textRestores := bump k (textRestores p) \<rparr>)
           | None \<Rightarrow>
               (case btext blurData of
                  None \<Rightarrow> (True, p)
                | Some t \<Rightarrow>
                    (case findAndBlurTextContent t p of
                       Some p' \<Rightarrow> (False, p')
                     | None \<Rightarrow> (True, p)))))"

text \<open>
  The body of the \<open>forEach\<close> of \<open>applyExistingBlurs\<close>, for one mark and its index.
\<close>

definition restore_mark ::
  "dom_oracle \<Rightarrow> int \<Rightarrow> blur_data \<Rightarrow> nat \<Rightarrow> page \<Rightarrow> bool \<times> page" where
  "restore_mark doc intensity blurData index p =
     (case btype blurData of
        Element \<Rightarrow> restore_element_mark doc intensity blurData index p
      | Area \<Rightarrow>
          (case coords blurData of
             Some c \<Rightarrow> (False, restore_area_mark intensity c p)
           | None \<Rightarrow> (False, p))
      | TextBlur \<Rightarrow> restore_text_mark doc intensity blurData index p)"

definition markBlurForCleanup :: "nat \<Rightarrow> nat list \<Rightarrow> nat list" where
  "markBlurForCleanup index queue = (if index \<in> set queue then queue else queue @ [index])"

text \<open>
  The scan: the marks with their indices, in order; it writes the queue and the page,
  never the list of marks.
\<close>

fun scan_marks ::
  "dom_oracle \<Rightarrow> int \<Rightarrow> (blur_data \<times> nat) list \<Rightarrow> nat list \<times> page \<Rightarrow> nat list \<times> page" where
  "scan_marks doc intensity [] qp = qp"
| "scan_marks doc intensity (bi # rest) qp =
     (case restore_mark doc intensity (fst bi) (snd bi) (snd qp) of
        (cleanup, p') \<Rightarrow>
          scan_marks doc intensity rest
            (if cleanup then markBlurForCleanup (snd bi) (fst qp) else fst qp, p'))"

text \<open>
  \<open>performBlurCleanup\<close>: the queued indices, highest first, are spliced out of the
  list; the queue is emptied; the list is saved when something was removed.
\<close>

definition splice1 :: "nat \<Rightarrow> 'a list \<Rightarrow> 'a list" where
  "splice1 index xs = take index xs @ drop (Suc index) xs"

fun splice_all :: "nat list \<Rightarrow> 'a list \<times> nat \<Rightarrow> 'a list \<times> nat" where
  "splice_all [] acc = acc"
| "splice_all (index # rest) acc =
     splice_all rest
       (if index < length (fst acc) then (splice1 index (fst acc), Suc (snd acc)) else acc)"

definition performBlurCleanup :: "blur_anything \<Rightarrow> blur_anything" where
  "performBlurCleanup s =
     (if blursToCleanup s = [] then s
      else
        let sortedIndices = rev (sort (blursToCleanup s));
            (remaining, removedCount) = splice_all sortedIndices (blurredElements s, 0);
            s1 = s\<lparr> blurredElements := remaining, blursToCleanup := [] \<rparr>
        in if 0 < removedCount then emit [SaveBlurData remaining] s1 else s1)"

definition scan_pass :: "dom_oracle \<Rightarrow> blur_anything \<Rightarrow> page \<Rightarrow> nat list \<times> page" where
  "scan_pass doc s p =
     scan_marks doc (blurIntensity s)
       (zip (blurredElements s) [0 ..< length (blurredElements s)]) (blursToCleanup s, p)"

definition applyExistingBlurs ::
  "dom_oracle \<Rightarrow> blur_anything \<Rightarrow> page \<Rightarrow> blur_anything \<times> page" where
  "applyExistingBlurs doc s p =
     (if blurredElements s = [] then (s, p)
      else case scan_pass doc s p of
             (queue, p') \<Rightarrow> (performBlurCleanup (s\<lparr> blursToCleanup := queue \<rparr>), p'))"

text \<open>
  \<open>preInjectBlurCSS\<close> writes one rule for every element mark with a selector,
  \<^verbatim>\<open>selector { filter: blur(Npx) !important; }\<close>, and one for every area mark with
  coordinates, for the attribute \<open>data-coords\<close> with the text \<^verbatim>\<open>x,y,width,height\<close>, and
  puts them into the head as a new style sheet. It looks at no marker, and not at the
  style sheets that are there.
\<close>

definition preInjectBlurCSS :: "int \<Rightarrow> blur_data list \<Rightarrow> page \<Rightarrow> page" where
  "preInjectBlurCSS intensity blurData p =
     (let cssRules =
            concat (map (\<lambda>blur.
              if btype blur = Element \<and> selector blur \<noteq> RawSelector []
                then [FilterRule (selector blur) intensity]
              else if btype blur = Area
                then (case coords blur of Some c \<Rightarrow> [BackdropRule c intensity] | None \<Rightarrow> [])
              else []) blurData)
      in if cssRules = [] then p else p\<lparr> styleSheets := cssRules # styleSheets p \<rparr>)"

text \<open>
  \<open>attemptImmediateBlurRestoration\<close>, the restoration before the marks are loaded from
  the store: when the local shadow copy holds marks for the page, they become the list
  of marks, their rules are injected, and \<open>applyExistingBlurs\<close> runs once.
\<close>

definition attemptImmediateBlurRestoration ::
  "dom_oracle \<Rightarrow> string \<Rightarrow> local_item \<Rightarrow> blur_anything \<Rightarrow> page \<Rightarrow> blur_anything \<times> page" where
  "attemptImmediateBlurRestoration doc href item s p =
     (let localBlurData = loadBlurDataLocally href item in
      if localBlurData \<noteq> [] then
        let s1 = s\<lparr> blurredElements := localBlurData \<rparr> in
        applyExistingBlurs doc s1 (preInjectBlurCSS (blurIntensity s1) localBlurData p)
      else (s, p))"

text \<open>
  A sequence of restoration passes, each with the state of the class and the answers
  of the document at its time; only the page is carried from pass to pass. A pass is a
  call of \<open>applyExistingBlurs\<close> by \<open>scheduleBlurRestoration\<close> (the immediate one and the
  retry after 100 ms), or the restoration before loading, with the address of the page
  and the item of the local shadow copy.
\<close>

datatype restoration =
    Scheduled dom_oracle blur_anything
  | BeforeLoading dom_oracle string local_item blur_anything

fun restore :: "restoration \<Rightarrow> page \<Rightarrow> page" where
  "restore (Scheduled doc s) p = snd (applyExistingBlurs doc s p)"
| "restore (BeforeLoading doc href item s) p =
     snd (attemptImmediateBlurRestoration doc href item s p)"

fun passes :: "restoration list \<Rightarrow> page \<Rightarrow> page" where
  "passes [] p = p"
| "passes (r # rest) p = passes rest (restore r p)"

text \<open>
  A page on which restoration has done nothing yet. \<open>applied_at_most_once\<close> says that
  no target has had the effect of restoration more than once: every counter is at
  most 1.
\<close>

definition untouched :: "page \<Rightarrow> bool" where
  "untouched p =
     (applyCalls p = replicate (length (elements p)) 0
      \<and> textRestores p = replicate (length (elements p)) 0
      \<and> distinct (map area_coords (areas p))
      \<and> list_all (\<lambda>a. area_overlayCalls a = 0) (areas p)
      \<and> list_all (\<lambda>n. tn_wrappers n = 0) (textNodes p))"

definition applied_at_most_once :: "page \<Rightarrow> bool" where
  "applied_at_most_once p =
     (list_all (\<lambda>c. c \<le> 1) (applyCalls p)
      \<and> list_all (\<lambda>c. c \<le> 1) (textRestores p)
      \<and> list_all (\<lambda>a. area_overlayCalls a \<le> 1) (areas p)
      \<and> list_all (\<lambda>n. tn_wrappers n \<le> 1) (textNodes p))"

text \<open>The invariant that the passes keep.\<close>

definition marked_once :: "nat \<Rightarrow> element \<Rightarrow> bool" where
  "marked_once c e = (c = 0 \<or> (c = 1 \<and> ''blur-anything-blurred'' \<in> set (classList e)))"

definition wrapped_once :: "text_node \<Rightarrow> bool" where
  "wrapped_once n = (tn_wrappers n = 0 \<or> (tn_wrappers n = 1 \<and> tn_inTextBlur n))"

definition restoration_invariant :: "page \<Rightarrow> bool" where
  "restoration_invariant p =
     (list_all2 marked_once (applyCalls p) (elements p)
      \<and> distinct (map area_coords (areas p))
      \<and> list_all wrapped_once (textNodes p))"

text \<open>
  \<open>blurred_areas_kept p q\<close>: every blur area of the page \<open>p\<close> whose inline style has the
  blur is, at its place, the same in the page \<open>q\<close>.
\<close>

definition blurred_areas_kept :: "page \<Rightarrow> page \<Rightarrow> bool" where
  "blurred_areas_kept p q =
     (length (areas p) \<le> length (areas q)
      \<and> list_all (\<lambda>i. area_backdrop (areas p ! i) \<noteq> None \<longrightarrow> areas q ! i = areas p ! i)
            [0 ..< length (areas p)])"

section \<open>The locator synthesizer\<close>

text \<open>
  The document, by the subtree of its body: a node is an element with its child
  elements, and an element of the document is named by the path of child indices that
  leads to it from the body (the body is the empty path).
\<close>

datatype dom_node = DomNode (element_of: element) (children_of: "dom_node list")

primrec node_at :: "nat list \<Rightarrow> dom_node \<Rightarrow> dom_node option" where
  "node_at [] n = Some n"
| "node_at (i # rest) n =
     (if i < length (children_of n) then node_at rest (children_of n ! i) else None)"

text \<open>All elements of the subtree in document order.\<close>

fun node_paths :: "dom_node \<Rightarrow> nat list list"
  and forest_paths :: "nat \<Rightarrow> dom_node list \<Rightarrow> nat list list" where
  "node_paths (DomNode e cs) = [] # forest_paths 0 cs"
| "forest_paths k [] = []"
| "forest_paths k (c # cs) = map ((#) k) (node_paths c) @ forest_paths (Suc k) cs"

text \<open>\<open>isValidCSSIdentifier\<close>: the expression \<^verbatim>\<open>/^[a-zA-Z_-][a-zA-Z0-9_-]*$/\<close>.\<close>

definition is_letter :: "char \<Rightarrow> bool" where
  "is_letter c =
     (c \<in> set ''abcdefghijklmnopqrstuvwxyzABCDEFGHIJKLMNOPQRSTUVWXYZ'')"

definition is_digit :: "char \<Rightarrow> bool" where
  "is_digit c = (c \<in> set ''0123456789'')"

definition identifier_char :: "char \<Rightarrow> bool" where
  "identifier_char c = (is_letter c \<or> is_digit c \<or> c = CHR ''_'' \<or> c = CHR ''-'')"

definition isValidCSSIdentifier :: "string \<Rightarrow> bool" where
  "isValidCSSIdentifier str =
     (case str of
        [] \<Rightarrow> False
      | c # cs \<Rightarrow> (is_letter c \<or> c = CHR ''_'' \<or> c = CHR ''-'') \<and> list_all identifier_char cs)"

text \<open>\<open>escapeCSSIdentifier\<close> puts a backslash before every other character.\<close>

definition escapeCSSIdentifier :: "string \<Rightarrow> string" where
  "escapeCSSIdentifier str =
     concat (map (\<lambda>c. if identifier_char c then [c] else [CHR 0x5C, c]) str)"

text \<open>
  What the parser of the document reads as one identifier, for a text without escapes:
  letters, digits, underscores, hyphens and characters beyond ASCII, not starting with
  a digit, nor with a hyphen that a digit or nothing follows. \<open>isValidCSSIdentifier\<close>
  lets \<^verbatim>\<open>-\<close> and \<^verbatim>\<open>-1\<close> pass, which are no identifiers. The texts that
  \<open>generateSelector\<close> puts into a selector hold no escape: it gives only valid
  identifiers to \<open>escapeCSSIdentifier\<close>, which leaves them as they are.
\<close>

definition name_char :: "char \<Rightarrow> bool" where
  "name_char c = (identifier_char c \<or> (128 :: nat) \<le> of_char c)"

definition css_identifier :: "string \<Rightarrow> bool" where
  "css_identifier str =
     (case str of
        [] \<Rightarrow> False
      | c # cs \<Rightarrow>
          list_all name_char str
          \<and> (if c = CHR ''-'' then (case cs of [] \<Rightarrow> False | d # ds \<Rightarrow> \<not> is_digit d)
               else \<not> is_digit c))"

text \<open>
  Matching. A segment \<^verbatim>\<open>tag.c1.c2:nth-child(k)\<close> matches an element with that tag and
  those classes that is the k-th child of its parent; a chain of segments joined by
  \<^verbatim>\<open> > \<close> matches an element when its last segment matches the element and the chain
  before it matches the parent.
\<close>

definition matches_segment :: "dom_node \<Rightarrow> nat list \<Rightarrow> segment \<Rightarrow> bool" where
  "matches_segment doc path seg =
     (case node_at path doc of
        None \<Rightarrow> False
      | Some n \<Rightarrow>
          tagName (element_of n) = seg_tag seg
          \<and> set (seg_classes seg) \<subseteq> set (classList (element_of n))
          \<and> (case seg_nth seg of
                None \<Rightarrow> True
              | Some k \<Rightarrow> path \<noteq> [] \<and> Suc (last path) = k))"

fun matches_chain :: "dom_node \<Rightarrow> nat list \<Rightarrow> segment list \<Rightarrow> bool" where
  "matches_chain doc path [] = True"
| "matches_chain doc path (seg # earlier) =
     (matches_segment doc path seg
      \<and> (earlier = [] \<or> (path \<noteq> [] \<and> matches_chain doc (butlast path) earlier)))"

definition matches :: "dom_node \<Rightarrow> css_selector \<Rightarrow> nat list \<Rightarrow> bool" where
  "matches doc sel path =
     (case node_at path doc of
        None \<Rightarrow> False
      | Some n \<Rightarrow>
          (case sel of
             IdSelector i \<Rightarrow> elementId (element_of n) = i
           | PathSelector segs \<Rightarrow> matches_chain doc path (rev segs)
           | AttrSelector a v \<Rightarrow> getAttribute a (element_of n) = Some v
           | AreaSelector x y \<Rightarrow> False
           | RawSelector s \<Rightarrow> False))"

text \<open>
  \<open>querySelectorAll\<close> and \<open>querySelector\<close> of the document: the elements that
  match, in document order; both throw on a text that is no selector. The name after
  \<^verbatim>\<open>#\<close>, a tag, a class and the name of an attribute have to be identifiers, the value
  of an attribute in double quotes may hold no double quote, backslash or line break,
  and an empty chain of segments is the empty text.
\<close>

definition valid_segment :: "segment \<Rightarrow> bool" where
  "valid_segment seg =
     (css_identifier (seg_tag seg) \<and> list_all css_identifier (seg_classes seg))"

definition quoted_text :: "string \<Rightarrow> bool" where
  "quoted_text v =
     list_all (\<lambda>c. c \<notin> set [CHR 0x22, CHR 0x5C, CHR 0x0A, CHR 0x0C, CHR 0x0D]) v"

definition valid_selector :: "css_selector \<Rightarrow> bool" where
  "valid_selector sel =
     (case sel of
        IdSelector i \<Rightarrow> css_identifier i
      | PathSelector segs \<Rightarrow> segs \<noteq> [] \<and> list_all valid_segment segs
      | AttrSelector a v \<Rightarrow> css_identifier a \<and> quoted_text v
      | AreaSelector x y \<Rightarrow> True
      | RawSelector s \<Rightarrow> False)"

definition querySelectorAll :: "dom_node \<Rightarrow> css_selector \<Rightarrow> nat list list outcome" where
  "querySelectorAll doc sel =
     (if valid_selector sel then Returns (filter (matches doc sel) (node_paths doc))
      else Throws)"

definition querySelector :: "dom_node \<Rightarrow> css_selector \<Rightarrow> nat list option outcome" where
  "querySelector doc sel =
     (case querySelectorAll doc sel of
        Throws \<Rightarrow> Throws
      | Returns ms \<Rightarrow> Returns (case ms of [] \<Rightarrow> None | m # rest \<Rightarrow> Some m))"

text \<open>
  \<open>shouldAddNthChild(element, parent)\<close>: the class name is cut at every single space,
  and the tag with all pieces that are valid is looked up under the parent
  (\<open>parent.querySelectorAll\<close>: the descendants of the parent that match). A class name
  that is not empty but holds no valid piece gives the selector \<^verbatim>\<open>tag.\<close>, which the
  parent rejects as it rejects every text that is no selector: the answer is then
  \<open>true\<close>.
\<close>

definition descendants_matching ::
  "dom_node \<Rightarrow> nat list \<Rightarrow> css_selector \<Rightarrow> nat list list outcome" where
  "descendants_matching doc parent sel =
     (if valid_selector sel
      then Returns (filter (\<lambda>p. length parent < length p \<and> take (length parent) p = parent
                                \<and> matches doc sel p) (node_paths doc))
      else Throws)"

definition shouldAddNthChild :: "dom_node \<Rightarrow> nat list \<Rightarrow> nat list \<Rightarrow> bool" where
  "shouldAddNthChild doc current parent =
     (case node_at current doc of
        None \<Rightarrow> True
      | Some n \<Rightarrow>
          let e = element_of n;
              valid = filter isValidCSSIdentifier (split_at CHR '' '' (className e))
          in if className e \<noteq> [] \<and> valid = [] then True
             else
               (case descendants_matching doc parent
                       (PathSelector [Segment (tagName e) valid None]) of
                  Throws \<Rightarrow> True
                | Returns ms \<Rightarrow> 1 < length ms))"

text \<open>
  The segment of one level: the tag, the first three valid ones of the words of the
  class name (\<^verbatim>\<open>className.trim().split(/\s+/)\<close>), and
  \<^verbatim>\<open>:nth-child(index)\<close> with the position of the element among its siblings of the same
  tag, when \<open>shouldAddNthChild\<close> says so and there are between 2 and 20 such siblings.
\<close>

definition same_tag_siblings :: "dom_node \<Rightarrow> nat list \<Rightarrow> string \<Rightarrow> nat list" where
  "same_tag_siblings doc parent tag =
     (case node_at parent doc of
        None \<Rightarrow> []
      | Some pn \<Rightarrow>
          filter (\<lambda>i. tagName (element_of (children_of pn ! i)) = tag)
            [0 ..< length (children_of pn)])"

fun position_in :: "nat \<Rightarrow> nat list \<Rightarrow> nat" where
  "position_in i [] = 0"
| "position_in i (j # js) = (if i = j then 0 else Suc (position_in i js))"

definition level_segment :: "dom_node \<Rightarrow> nat list \<Rightarrow> segment" where
  "level_segment doc current =
     (case node_at current doc of
        None \<Rightarrow> Segment [] [] None
      | Some n \<Rightarrow>
          let e = element_of n;
              classes = take 3 (map escapeCSSIdentifier
                                 (filter isValidCSSIdentifier
                                   (words_by is_space (className e))));
              parent = butlast current;
              siblings = same_tag_siblings doc parent (tagName e)
          in Segment (tagName e) classes
               (if shouldAddNthChild doc current parent
                   \<and> 1 < length siblings \<and> length siblings \<le> 20
                then Some (Suc (position_in (last current) siblings)) else None))"

text \<open>
  The loop of \<open>generateSelector\<close>: \<open>attempts\<close> counts the levels still allowed (6 at
  the start), \<open>current\<close> walks from the element towards the body, \<open>path\<close> is the
  chain built so far. The result is \<open>Inl\<close> the selector returned from inside the loop,
  or \<open>Inr\<close> the chain at the loop's end.
\<close>

fun walk_up ::
  "dom_node \<Rightarrow> nat list \<Rightarrow> nat \<Rightarrow> nat list \<Rightarrow> segment list \<Rightarrow> css_selector + segment list" where
  "walk_up doc element 0 current path = Inr path"
| "walk_up doc element (Suc attempts) current path =
     (if current = [] then Inr path
      else
        let path' = level_segment doc current # path in
        if 2 \<le> length path'
           \<and> querySelectorAll doc (PathSelector path') = Returns [element]
        then Inl (PathSelector path')
        else walk_up doc element attempts (butlast current) path')"

text \<open>
  \<open>generateSelector(element)\<close>. \<open>fallbackId\<close> is the text built from \<open>Date.now()\<close> and
  \<open>Math.random()\<close>; the last branch writes it to the element's \<open>data-blur-id\<close>, so the
  result is the selector and the document after the call. An element with a valid id
  gets \<^verbatim>\<open>#\<close> and the id when \<open>document.querySelector\<close> takes that selector, whatever
  it resolves to; when \<open>document.querySelector\<close> throws, the path is built as for an
  element without an id.
\<close>

fun update_at :: "nat list \<Rightarrow> (element \<Rightarrow> element) \<Rightarrow> dom_node \<Rightarrow> dom_node" where
  "update_at [] f (DomNode e cs) = DomNode (f e) cs"
| "update_at (i # rest) f (DomNode e cs) =
     (if i < length cs then DomNode e (cs[i := update_at rest f (cs ! i)]) else DomNode e cs)"

definition path_selector ::
  "string \<Rightarrow> dom_node \<Rightarrow> nat list \<Rightarrow> css_selector \<times> dom_node" where
  "path_selector fallbackId doc element =
     (case walk_up doc element 6 element [] of
        Inl sel \<Rightarrow> (sel, doc)
      | Inr path \<Rightarrow>
          if querySelector doc (PathSelector path) = Returns (Some element)
          then (PathSelector path, doc)
          else (AttrSelector ''data-blur-id'' fallbackId,
                update_at element (setAttribute ''data-blur-id'' fallbackId) doc))"

definition generateSelector ::
  "string \<Rightarrow> dom_node \<Rightarrow> nat list \<Rightarrow> css_selector \<times> dom_node" where
  "generateSelector fallbackId doc element =
     (case node_at element doc of
        None \<Rightarrow> (AttrSelector ''data-blur-id'' fallbackId, doc)
      | Some n \<Rightarrow>
          if elementId (element_of n) \<noteq> [] \<and> isValidCSSIdentifier (elementId (element_of n))
          then
            (let idSelector = IdSelector (escapeCSSIdentifier (elementId (element_of n))) in
             case querySelector doc idSelector of
               Returns r \<Rightarrow> (idSelector, doc)
             | Throws \<Rightarrow> path_selector fallbackId doc element)
          else path_selector fallbackId doc element)"

definition resolves_to :: "dom_node \<Rightarrow> css_selector \<Rightarrow> nat list option" where
  "resolves_to doc sel = (case querySelector doc sel of Returns r \<Rightarrow> r | Throws \<Rightarrow> None)"

section \<open>Example inputs\<close>

text \<open>
  A session in draw mode with the anchor at (50, 50), and an element mark.
\<close>

definition drawing_state :: blur_anything where
  "drawing_state =
     handleMouseDown False \<lparr> pageX = 50, pageY = 50 \<rparr>
       (run [MessageOp ToggleExtension, SetExclusiveModeOp DrawM] initial_state)"

definition example_mark :: blur_data where
  "example_mark =
     \<lparr> selector = IdSelector ''title'', btype = Element, coords = None, btext = None,
       timestamp = 1 \<rparr>"

text \<open>
  An element, a page with one heading and one text node, a document that answers only
  the heading's selector, marks of each kind, and a document with a duplicate id.
\<close>

definition example_element :: element where
  "example_element =
     \<lparr> tagName = ''h1'', elementId = ''title'', className = ''headline'',
       attributes = [(''data-blur-id'', ''blur-1-abc'')],
       style = [(''color'', Other ''red'', False), (''filter'', Filters [OtherFn ''grayscale(1)''], True)],
       connected = True, displayed = True \<rparr>"

definition plain :: "string \<Rightarrow> string \<Rightarrow> string \<Rightarrow> element" where
  "plain tag i classes =
     \<lparr> tagName = tag, elementId = i, className = classes, attributes = [], style = [],
       connected = True, displayed = True \<rparr>"

definition duplicate_id_document :: dom_node where
  "duplicate_id_document =
     DomNode (plain ''body'' [] [])
       [DomNode (plain ''div'' ''price'' []) [], DomNode (plain ''p'' ''price'' []) []]"

definition example_page :: page where
  "example_page =
     \<lparr> elements = [plain ''h1'' ''title'' []], applyCalls = [0], textRestores = [0],
       areas = [],
       textNodes = [\<lparr> tn_text = ''call 555 0100 now'', tn_inTextBlur = False,
                      tn_inExtensionUI = False, tn_wrappers = 0 \<rparr>],
       styleSheets = [] \<rparr>"

definition example_oracle :: dom_oracle where
  "example_oracle =
     \<lparr> query = (\<lambda>p sel. if sel = IdSelector ''title'' then Returns (Some 0)
                         else Returns None),
       simplifiedQuery = (\<lambda>p sel. None),
       recoveryId = (\<lambda>index. ''blur-recovery-0-1700000000000''),
       blurIdQuery = (\<lambda>p sel. None) \<rparr>"

text \<open>
  A page that holds, after its heading, the span of a text mark made earlier, with the
  class \<open>blur-anything-text-blur\<close> and a blur of 10; the document answers the selectors
  of both.
\<close>

definition span_page :: page where
  "span_page =
     \<lparr> elements =
         [plain ''h1'' ''title'' [],
          \<lparr> tagName = ''span'', elementId = ''blur-text-3-abc'',
            className = ''blur-anything-text-blur'', attributes = [],
            style = [(''filter'', Filters [BlurFn 10], False),
                     (''transition'', Other ''filter 0.3s ease'', False),
                     (''cursor'', Other ''pointer'', False)],
            connected = True, displayed = True \<rparr>],
       applyCalls = [0, 0], textRestores = [0, 0], areas = [], textNodes = [],
       styleSheets = [] \<rparr>"

definition span_oracle :: dom_oracle where
  "span_oracle =
     \<lparr> query = (\<lambda>p sel. if sel = IdSelector ''title'' then Returns (Some 0)
                         else if sel = IdSelector ''blur-text-3-abc'' then Returns (Some 1)
                         else Returns None),
       simplifiedQuery = (\<lambda>p sel. None),
       recoveryId = (\<lambda>index. ''blur-recovery-0-1700000000000''),
       blurIdQuery = (\<lambda>p sel. None) \<rparr>"

definition area_mark :: blur_data where
  "area_mark =
     \<lparr> selector = AreaSelector 50 50, btype = Area,
       coords = Some \<lparr> coord_x = 50, coord_y = 50, coord_width = 100, coord_height = 100 \<rparr>,
       btext = None, timestamp = 2 \<rparr>"

definition text_mark :: "string \<Rightarrow> blur_data" where
  "text_mark t =
     \<lparr> selector = IdSelector ''blur-text-3-abc'', btype = TextBlur, coords = None,
       btext = Some t, timestamp = 3 \<rparr>"

definition gone_mark :: blur_data where
  "gone_mark =
     \<lparr> selector = IdSelector ''banner'', btype = Element, coords = None, btext = None,
       timestamp = 4 \<rparr>"

definition loaded_state :: "blur_data list \<Rightarrow> blur_anything" where
  "loaded_state marks = initial_state\<lparr> blurredElements := marks \<rparr>"

text \<open>
  Passes. The two scheduled passes, the intensity being 4 at the first and 7 at the
  second: for the text mark on the page with its span, for an area mark, and, after the
  restoration before loading at the intensity 10 of a new instance, for the marks of a
  page that are in the local shadow copy and in the store.
\<close>

definition stored_marks :: "blur_data list" where
  "stored_marks = [example_mark, area_mark, text_mark ''555 0100'']"

definition scheduled_at :: "dom_oracle \<Rightarrow> int \<Rightarrow> blur_data list \<Rightarrow> restoration" where
  "scheduled_at doc intensity marks =
     Scheduled doc ((loaded_state marks)\<lparr> blurIntensity := intensity \<rparr>)"

definition text_passes :: "restoration list" where
  "text_passes =
     [scheduled_at span_oracle 4 [text_mark ''sold out''],
      scheduled_at span_oracle 7 [text_mark ''sold out'']]"

definition area_passes :: "restoration list" where
  "area_passes =
     [scheduled_at example_oracle 4 [area_mark], scheduled_at example_oracle 7 [area_mark]]"

definition example_passes :: "restoration list" where
  "example_passes =
     [BeforeLoading example_oracle ''https://example.org/''
        (Parsed \<lparr> ld_url = ''https://example.org/'', ld_blurData = Some stored_marks,
                   ld_timestamp = 5 \<rparr>)
        initial_state,
      scheduled_at example_oracle 4 stored_marks,
      scheduled_at example_oracle 7 stored_marks]"

definition list_document :: dom_node where
  "list_document =
     DomNode (plain ''body'' [] [])
       [DomNode (plain ''ul'' [] ''menu'')
          [DomNode (plain ''li'' [] []) [], DomNode (plain ''li'' [] []) []],
        DomNode (plain ''p'' [] []) []]"

section \<open>Theorems\<close>

subsection \<open>Intensity bounds\<close>

lemma emit_fields [simp]:
  "blurIntensity (emit es s) = blurIntensity s"
  "blurredElements (emit es s) = blurredElements s"
  "isEnabled (emit es s) = isEnabled s"
  "isBlurMode (emit es s) = isBlurMode s"
  "isDrawingMode (emit es s) = isDrawingMode s"
  "isTextSelectionMode (emit es s) = isTextSelectionMode s"
  "isEraserMode (emit es s) = isEraserMode s"
  "blursToCleanup (emit es s) = blursToCleanup s"
  "startCoords (emit es s) = startCoords s"
  "drawingOverlay (emit es s) = drawingOverlay s"
  "effects (emit es s) = effects s @ es"
  by (simp_all add: emit_def)

text \<open>
  C9. From an intensity in the closed range 1..10, an adjustment by +1 or -1 leaves the
  intensity in 1..10; an adjustment that would leave the range changes no field of the
  state but the trace, to which it adds only the notification of the bound; any other
  adjustment sets the intensity to the sum.
\<close>

theorem adjustBlurIntensity_range:
  assumes "1 \<le> blurIntensity s" and "blurIntensity s \<le> 10"
    and "change = 1 \<or> change = - 1"
  shows "1 \<le> blurIntensity (adjustBlurIntensity change s)
       \<and> blurIntensity (adjustBlurIntensity change s) \<le> 10
       \<and> (if blurIntensity s + change < 1 then
            adjustBlurIntensity change s = emit [ShowToolbarNotification MinimumIntensity] s
          else if 10 < blurIntensity s + change then
            adjustBlurIntensity change s = emit [ShowToolbarNotification MaximumIntensity] s
          else blurIntensity (adjustBlurIntensity change s) = blurIntensity s + change)"
  using assms by (auto simp: adjustBlurIntensity_def Let_def)

theorem adjustBlurIntensity_range_witness:
  "blurIntensity (adjustBlurIntensity 1 initial_state) = 10
   \<and> adjustBlurIntensity 1 initial_state
       = emit [ShowToolbarNotification MaximumIntensity] initial_state
   \<and> blurIntensity (adjustBlurIntensity (- 1) initial_state) = 9"
proof -
  have a: "1 \<le> blurIntensity initial_state" "blurIntensity initial_state \<le> 10"
    by (simp_all add: initial_state_def)
  have up: "(1::int) = 1 \<or> (1::int) = - 1" by simp
  have dn: "(- 1::int) = 1 \<or> (- 1::int) = - 1" by simp
  show ?thesis
    using adjustBlurIntensity_range [OF a up] adjustBlurIntensity_range [OF a dn]
    by (simp add: initial_state_def)
qed

subsection \<open>Exclusivity of the gesture modes\<close>

lemma active_modes_emit [simp]: "active_modes (emit es s) = active_modes s"
  by (simp add: active_modes_def)

lemma setExclusiveMode_exclusive:
  "at_most_one_mode s \<Longrightarrow> at_most_one_mode (setExclusiveMode m s)"
  by (cases m)
     (auto simp add: setExclusiveMode_def active_modes_def at_most_one_mode_def split: if_splits)

lemma step_exclusive:
  assumes "through_setExclusiveMode c" and "at_most_one_mode s"
  shows "at_most_one_mode (step c s)"
proof (cases c)
  case (SetExclusiveModeOp m)
  then show ?thesis using assms by (simp add: setExclusiveMode_exclusive)
next
  case (ToolbarClickOp b)
  then show ?thesis using assms
    by (cases b) (simp_all add: toolbarClick_def setExclusiveMode_exclusive)
next
  case (MessageOp msg)
  then show ?thesis using assms
    by (cases msg)
       (auto simp add: handleMessage_def setExclusiveMode_def active_modes_def
          at_most_one_mode_def Let_def split: if_splits)
next
  case (KeyDownOp k)
  then show ?thesis
    using assms setExclusiveMode_exclusive [of s NoneM] setExclusiveMode_exclusive [of s DrawM]
    by (cases k)
       (auto simp add: handleKeyDown_def hideDrawingOverlay_def active_modes_def
          at_most_one_mode_def)
next
  case (AdjustIntensityOp i)
  then show ?thesis using assms
    by (auto simp add: adjustBlurIntensity_def active_modes_def at_most_one_mode_def Let_def)
next
  case (MouseDownOp b e)
  then show ?thesis using assms
    by (auto simp add: handleMouseDown_def active_modes_def at_most_one_mode_def)
next
  case (MouseMoveOp e)
  then show ?thesis using assms
    by (auto simp add: handleMouseMove_def active_modes_def at_most_one_mode_def
          split: option.splits)
next
  case (MouseUpOp e m b r n)
  then show ?thesis using assms
    by (auto simp add: handleMouseUp_def createBlurArea_def hideDrawingOverlay_def
          active_modes_def at_most_one_mode_def Let_def split: option.splits)
next
  case (BlurElementOp sel a b t n)
  then show ?thesis using assms
    by (auto simp add: blurElement_def unblurElement_def active_modes_def
          at_most_one_mode_def Let_def)
next
  case (TextSelectionOp a b m sel u n)
  then show ?thesis using assms
    by (auto simp add: handleTextSelection_def active_modes_def at_most_one_mode_def Let_def)
next
  case (EraseOp t)
  then show ?thesis using assms
    by (auto simp add: eraseBlur_def unblurElement_def active_modes_def at_most_one_mode_def
          Let_def split: erase_target.splits option.splits)
next
  case ClearAllOp
  then show ?thesis using assms
    by (auto simp add: clearAllBlurs_def active_modes_def at_most_one_mode_def)
qed

text \<open>
  Every sequence of operations that changes the mode only through \<open>setExclusiveMode\<close>
  (calls of it, toolbar clicks, the keyboard shortcuts, the messages that enable,
  disable, show and hide) keeps at most one gesture mode active.
\<close>

theorem run_exclusive:
  "list_all through_setExclusiveMode cs \<Longrightarrow> at_most_one_mode s
   \<Longrightarrow> at_most_one_mode (run cs s)"
  by (induction cs arbitrary: s) (simp_all add: step_exclusive)

theorem run_exclusive_witness:
  "at_most_one_mode
     (run [MessageOp ToggleExtension, ToolbarClickOp ToolbarDrawMode, KeyDownOp CtrlShiftB,
           SetExclusiveModeOp EraserM] initial_state)
   \<and> isEraserMode
     (run [MessageOp ToggleExtension, ToolbarClickOp ToolbarDrawMode, KeyDownOp CtrlShiftB,
           SetExclusiveModeOp EraserM] initial_state)"
proof -
  have a: "list_all through_setExclusiveMode
     [MessageOp ToggleExtension, ToolbarClickOp ToolbarDrawMode, KeyDownOp CtrlShiftB,
      SetExclusiveModeOp EraserM]" by simp
  have b: "at_most_one_mode initial_state"
    by (simp add: at_most_one_mode_def active_modes_def initial_state_def)
  show ?thesis using run_exclusive [OF a b]
    by (simp add: initial_state_def handleMessage_def toolbarClick_def handleKeyDown_def
          setExclusiveMode_def)
qed

text \<open>
  C2. The claim that at most one gesture mode is active after every sequence of
  mode-changing operations fails on the \<open>toggleDrawMode\<close> message: once the extension
  is enabled (which enters the blur mode), the message sets \<open>isDrawingMode\<close> and leaves
  \<open>isBlurMode\<close> set, so two modes are active.
\<close>

theorem toggleDrawMode_two_modes:
  "isEnabled (run [MessageOp ToggleExtension, MessageOp ToggleDrawMode] initial_state)
   \<and> isBlurMode (run [MessageOp ToggleExtension, MessageOp ToggleDrawMode] initial_state)
   \<and> isDrawingMode (run [MessageOp ToggleExtension, MessageOp ToggleDrawMode] initial_state)
   \<and> \<not> at_most_one_mode
        (run [MessageOp ToggleExtension, MessageOp ToggleDrawMode] initial_state)"
  by (simp add: initial_state_def handleMessage_def setExclusiveMode_def active_modes_def
        at_most_one_mode_def)

subsection \<open>The minimum size of a region\<close>

text \<open>
  C5. On release in draw mode, with an anchor and an overlay: a rectangle narrower or
  lower than 10 commits nothing, the overlay and the anchor are discarded and nothing
  else changes; a rectangle of at least 10 by 10 (so one of exactly 10 by 10) that
  passes the maximum-size and quota checks appends one area mark with the overlay's box
  and appends the blur area to the page; one that fails a check leaves the marks as
  they were.
\<close>

theorem handleMouseUp_minimum_size:
  assumes "isEnabled s" and "isDrawingMode s"
    and "startCoords s = Some (sx, sy)" and "drawingOverlay s = Some ov"
  shows "(if \<bar>pageX e - sx\<bar> < 10 \<or> \<bar>pageY e - sy\<bar> < 10 then
            handleMouseUp e maxSize canAdd rect now s
              = s\<lparr> startCoords := None, drawingOverlay := None \<rparr>
          else if \<not> exceeds \<bar>pageX e - sx\<bar> (max_width maxSize)
                  \<and> \<not> exceeds \<bar>pageY e - sy\<bar> (max_height maxSize) \<and> canAdd then
            blurredElements (handleMouseUp e maxSize canAdd rect now s)
              = blurredElements s @
                  [\<lparr> selector = AreaSelector (coord_x rect) (coord_y rect), btype = Area,
                     coords = Some rect, btext = None, timestamp = now \<rparr>]
            \<and> AppendBlurArea rect (max 1 (blurIntensity s))
                \<in> set (effects (handleMouseUp e maxSize canAdd rect now s))
          else blurredElements (handleMouseUp e maxSize canAdd rect now s) = blurredElements s)"
  using assms
  by (simp add: handleMouseUp_def createBlurArea_def hideDrawingOverlay_def Let_def)

theorem handleMouseUp_minimum_size_witness:
  "length (blurredElements (handleMouseUp \<lparr> pageX = 60, pageY = 60 \<rparr>
       \<lparr> max_width = Some 200, max_height = Some 200 \<rparr> True
       \<lparr> coord_x = 50, coord_y = 50, coord_width = 10, coord_height = 10 \<rparr> 0 drawing_state)) = 1
   \<and> blurredElements (handleMouseUp \<lparr> pageX = 59, pageY = 60 \<rparr>
       \<lparr> max_width = Some 200, max_height = Some 200 \<rparr> True
       \<lparr> coord_x = 50, coord_y = 50, coord_width = 9, coord_height = 10 \<rparr> 0 drawing_state) = []
   \<and> blurredElements (handleMouseUp \<lparr> pageX = 60, pageY = 41 \<rparr>
       \<lparr> max_width = Some 200, max_height = Some 200 \<rparr> True
       \<lparr> coord_x = 50, coord_y = 41, coord_width = 10, coord_height = 9 \<rparr> 0 drawing_state) = []"
proof -
  have a: "isEnabled drawing_state" "isDrawingMode drawing_state"
    "startCoords drawing_state = Some (50, 50)" "drawingOverlay drawing_state = Some None"
    "blurredElements drawing_state = []"
    by (simp_all add: drawing_state_def initial_state_def handleMessage_def
          setExclusiveMode_def handleMouseDown_def)
  show ?thesis
    using handleMouseUp_minimum_size [OF a(1-4), of "\<lparr> pageX = 60, pageY = 60 \<rparr>"
        "\<lparr> max_width = Some 200, max_height = Some 200 \<rparr>" True
        "\<lparr> coord_x = 50, coord_y = 50, coord_width = 10, coord_height = 10 \<rparr>" 0]
      handleMouseUp_minimum_size [OF a(1-4), of "\<lparr> pageX = 59, pageY = 60 \<rparr>"
        "\<lparr> max_width = Some 200, max_height = Some 200 \<rparr>" True
        "\<lparr> coord_x = 50, coord_y = 50, coord_width = 9, coord_height = 10 \<rparr>" 0]
      handleMouseUp_minimum_size [OF a(1-4), of "\<lparr> pageX = 60, pageY = 41 \<rparr>"
        "\<lparr> max_width = Some 200, max_height = Some 200 \<rparr>" True
        "\<lparr> coord_x = 50, coord_y = 41, coord_width = 10, coord_height = 9 \<rparr>" 0]
    by (simp add: a exceeds_def)
qed

subsection \<open>The kind of a mark determines its fields\<close>

lemma step_kind:
  assumes "list_all kind_determines_fields (blurredElements s)"
  shows "list_all kind_determines_fields (blurredElements (step c s))"
proof (cases c)
  case (SetExclusiveModeOp m)
  then show ?thesis using assms by (cases m) (simp_all add: setExclusiveMode_def)
next
  case (ToolbarClickOp b)
  then show ?thesis using assms
    by (cases b) (simp_all add: toolbarClick_def setExclusiveMode_def)
next
  case (MessageOp msg)
  then show ?thesis using assms
    by (cases msg) (simp_all add: handleMessage_def setExclusiveMode_def Let_def)
next
  case (KeyDownOp k)
  then show ?thesis using assms
    by (cases k) (simp_all add: handleKeyDown_def hideDrawingOverlay_def setExclusiveMode_def)
next
  case (AdjustIntensityOp i)
  then show ?thesis using assms by (simp add: adjustBlurIntensity_def Let_def)
next
  case (MouseDownOp b e)
  then show ?thesis using assms by (simp add: handleMouseDown_def)
next
  case (MouseMoveOp e)
  then show ?thesis using assms by (simp add: handleMouseMove_def split: option.splits)
next
  case (MouseUpOp e m b r n)
  then show ?thesis using assms
    by (simp add: handleMouseUp_def createBlurArea_def hideDrawingOverlay_def Let_def
          kind_determines_fields_def split: option.splits)
next
  case (BlurElementOp sel a b t n)
  then show ?thesis using assms
    by (auto simp add: blurElement_def unblurElement_def Let_def kind_determines_fields_def
          list_all_iff)
next
  case (TextSelectionOp a b m sel u n)
  then show ?thesis using assms
    by (auto simp add: handleTextSelection_def Let_def kind_determines_fields_def)
next
  case (EraseOp t)
  then show ?thesis using assms
    by (auto simp add: eraseBlur_def unblurElement_def Let_def list_all_iff
          split: erase_target.splits option.splits)
next
  case ClearAllOp
  then show ?thesis by (simp add: clearAllBlurs_def)
qed

lemma run_kind:
  "list_all kind_determines_fields (blurredElements s)
   \<Longrightarrow> list_all kind_determines_fields (blurredElements (run cs s))"
  by (induction cs arbitrary: s) (simp_all add: step_kind)

text \<open>
  C8. After every sequence of operations from the initial state, every mark of the
  store has the fields of its kind: an element mark neither coordinates nor text, an
  area mark coordinates and no text, a text mark a non-empty text and no coordinates.
\<close>

theorem marks_kind_determines_fields:
  "list_all kind_determines_fields (blurredElements (run cs initial_state))"
  by (rule run_kind) (simp add: initial_state_def)

subsection \<open>The local shadow copy\<close>

text \<open>
  C10. \<open>loadBlurDataLocally\<close> returns a non-empty list only when the item parses, its
  \<open>url\<close> is the current URL and the list is the item's \<open>blurData\<close>; it returns the
  empty list when there is no item or the item does not parse; and after
  \<open>saveBlurDataLocally\<close> on one page, loading returns the saved marks on that page and
  the empty list on every other page.
\<close>

theorem loadBlurDataLocally_keyed:
  "(loadBlurDataLocally href item \<noteq> [] \<longrightarrow>
      (\<exists>d. item = Parsed d \<and> ld_url d = href
           \<and> ld_blurData d = Some (loadBlurDataLocally href item)))
   \<and> loadBlurDataLocally href NoItem = []
   \<and> loadBlurDataLocally href Unparseable = []
   \<and> loadBlurDataLocally href (saveBlurDataLocally saved_href now False s item)
       = (if saved_href = href then blurredElements s else [])"
  by (auto simp add: loadBlurDataLocally_def saveBlurDataLocally_def
        split: local_item.splits option.splits if_splits)

theorem loadBlurDataLocally_keyed_witness:
  "loadBlurDataLocally ''https://a.example/''
      (Parsed \<lparr> ld_url = ''https://a.example/'', ld_blurData = Some [example_mark],
                ld_timestamp = 1 \<rparr>) = [example_mark]
   \<and> loadBlurDataLocally ''https://b.example/''
      (saveBlurDataLocally ''https://a.example/'' 1 False
         (initial_state\<lparr> blurredElements := [example_mark] \<rparr>) NoItem) = []"
  using loadBlurDataLocally_keyed [of "''https://a.example/''"
      "Parsed \<lparr> ld_url = ''https://a.example/'', ld_blurData = Some [example_mark],
                ld_timestamp = 1 \<rparr>"]
    loadBlurDataLocally_keyed [of "''https://b.example/''" NoItem "''https://a.example/''" 1
      "initial_state\<lparr> blurredElements := [example_mark] \<rparr>"]
  by (simp add: loadBlurDataLocally_def)

subsection \<open>Loading\<close>

lemma loadBlurData_store: "snd (loadBlurData env s store) = store"
  by (simp add: loadBlurData_def syncLocalDataIfNeeded_def background_saveBlurData_def Let_def
        split: option.splits outcome.splits local_item.splits)

text \<open>
  \<open>loadBlurData\<close> never writes the in-extension store, whatever it meets; the message
  of \<open>saveBlurData\<close>, which carries the URL, is stored by the worker.
\<close>

lemma saveBlurData_message_stored:
  "href \<noteq> [] \<Longrightarrow>
   background_getBlurData href (background_saveBlurData (saveBlurData_message href s) store)
     = blurredElements s"
  by (simp add: background_getBlurData_def background_saveBlurData_def saveBlurData_message_def)

lemma loadBlurData_result:
  "blurredElements (fst (loadBlurData env s store)) =
     (if env_authenticated env \<and> (\<exists>l. env_firebase env = Returns l \<and> l \<noteq> [])
      then (case env_firebase env of Returns l \<Rightarrow> l | Throws \<Rightarrow> [])
      else if env_messaging env then
        (case env_local env of
           Parsed d \<Rightarrow>
             (case ld_blurData d of
                Some l \<Rightarrow>
                  if ld_url d = env_href env \<and> ld_timestamp d \<noteq> 0
                     \<and> length (background_getBlurData (env_href env) store) < length l
                  then l else background_getBlurData (env_href env) store
              | None \<Rightarrow> background_getBlurData (env_href env) store)
         | _ \<Rightarrow> background_getBlurData (env_href env) store)
      else loadBlurDataLocally (env_href env) (env_local env))"
  by (auto simp add: loadBlurData_def syncLocalDataIfNeeded_def Let_def
        split: option.splits outcome.splits local_item.splits)

text \<open>
  C4. The claim holds up to the resync, which fails: when the local copy of the page
  has more marks than the in-extension store answered, the local list becomes the list
  of marks, but the message that \<open>syncLocalDataIfNeeded\<close> sends has no \<open>url\<close>, the worker
  writes nothing, and the store still answers its old list.
\<close>

theorem loadBlurData_no_resync:
  "blurredElements (fst (loadBlurData
       \<lparr> env_href = ''https://a.example/'', env_authenticated = False,
         env_firebase = Returns [], env_messaging = True,
         env_local = Parsed \<lparr> ld_url = ''https://a.example/'',
                               ld_blurData = Some [example_mark, area_mark],
                               ld_timestamp = 5 \<rparr> \<rparr>
       initial_state [''https://a.example/'' \<mapsto> [example_mark]]))
     = [example_mark, area_mark]
   \<and> background_getBlurData ''https://a.example/'' (snd (loadBlurData
       \<lparr> env_href = ''https://a.example/'', env_authenticated = False,
         env_firebase = Returns [], env_messaging = True,
         env_local = Parsed \<lparr> ld_url = ''https://a.example/'',
                               ld_blurData = Some [example_mark, area_mark],
                               ld_timestamp = 5 \<rparr> \<rparr>
       initial_state [''https://a.example/'' \<mapsto> [example_mark]]))
     = [example_mark]"
  by (simp add: loadBlurData_def syncLocalDataIfNeeded_def background_getBlurData_def
        background_saveBlurData_def)

subsection \<open>The class attribute\<close>

text \<open>
  The token set read from a class attribute that was written from a list of distinct
  tokens is that list.
\<close>

lemma split_runs_append:
  "list_all (\<lambda>c. \<not> sep c) t \<Longrightarrow> split_runs sep cur (t @ rest) = split_runs sep (cur @ t) rest"
  by (induction t arbitrary: cur) simp_all

lemma words_by_join_with:
  assumes "sep s"
    and "list_all (\<lambda>t. t \<noteq> [] \<and> list_all (\<lambda>c. \<not> sep c) t) ts"
  shows "words_by sep (join_with [s] ts) = ts"
  using assms(2)
proof (induction "[s]" ts rule: join_with.induct)
  case 1
  then show ?case by (simp add: words_by_def)
next
  case (2 t)
  then have "split_runs sep [] (t @ []) = split_runs sep ([] @ t) []"
    by (intro split_runs_append) simp
  then show ?case using 2 by (simp add: words_by_def)
next
  case (3 t u ts)
  then have "split_runs sep [] (t @ s # join_with [s] (u # ts))
               = split_runs sep ([] @ t) (s # join_with [s] (u # ts))"
    by (intro split_runs_append) simp
  then show ?case using 3 assms(1) by (simp add: words_by_def)
qed

lemma split_runs_clean:
  "list_all (\<lambda>c. \<not> sep c) cur \<Longrightarrow>
   list_all (\<lambda>t. t \<noteq> [] \<and> list_all (\<lambda>c. \<not> sep c) t) (split_runs sep cur str)"
  by (induction str arbitrary: cur) simp_all

lemma ordered_set_set: "set (ordered_set xs) = set xs"
  by (simp add: ordered_set_def)

lemma ordered_set_distinct: "distinct (ordered_set xs)"
  by (simp add: ordered_set_def)

lemma ordered_set_id: "distinct xs \<Longrightarrow> ordered_set xs = xs"
  by (simp add: ordered_set_def distinct_remdups_id)

lemma tokens_clean: "list_all class_token (ordered_set (words_by ascii_whitespace str))"
proof -
  have "list_all class_token (words_by ascii_whitespace str)"
    using split_runs_clean [of ascii_whitespace "[]" str]
    by (simp add: words_by_def class_token_def list_all_iff)
  then show ?thesis by (simp add: list_all_iff ordered_set_set)
qed

lemma tokens_written:
  assumes "distinct ts" and "list_all class_token ts"
  shows "ordered_set (words_by ascii_whitespace (join_with '' '' ts)) = ts"
proof -
  have "ascii_whitespace CHR '' ''" by (simp add: ascii_whitespace_def)
  then have "words_by ascii_whitespace (join_with [CHR '' ''] ts) = ts"
    using assms(2)
    by (intro words_by_join_with) (simp_all add: class_token_def list_all_iff)
  then show ?thesis using assms(1) by (simp add: ordered_set_id)
qed

lemma class_tokens_removeAll:
  "list_all class_token ts \<Longrightarrow> list_all class_token (removeAll c ts)"
  by (simp add: list_all_iff)

lemma class_token_blurred: "class_token ''blur-anything-blurred''"
  by (simp add: class_token_def ascii_whitespace_def)

lemma class_token_text_blur: "class_token ''blur-anything-text-blur''"
  by (simp add: class_token_def ascii_whitespace_def)

lemmas class_simps =
  classList_def classList_add_def classList_remove_def tokens_written ordered_set_distinct
  ordered_set_set tokens_clean class_tokens_removeAll distinct_removeAll
  class_token_blurred class_token_text_blur

lemma classList_classList_remove:
  "classList (classList_remove c e) = removeAll c (classList e)"
  by (simp add: class_simps)

lemma classList_classList_add:
  "class_token c \<Longrightarrow>
   classList (classList_add c e)
     = (if c \<in> set (classList e) then classList e else classList e @ [c])"
  by (simp add: class_simps)

lemma classList_other_fields:
  "classList (e\<lparr> style := st \<rparr>) = classList e"
  "classList (e\<lparr> attributes := at \<rparr>) = classList e"
  by (simp_all add: classList_def)

subsection \<open>Removing the effect\<close>

lemma filter_map_declaration:
  "filter (\<lambda>d. fst d \<noteq> p) (map (\<lambda>d. if fst d = p then (p, v, i) else d) ds)
   = filter (\<lambda>d. fst d \<noteq> p) ds"
  by (induction ds) auto

lemma filter_set_declaration:
  "filter (\<lambda>d. fst d \<noteq> p) (set_declaration p v i ds) = filter (\<lambda>d. fst d \<noteq> p) ds"
  by (simp add: set_declaration_def filter_map_declaration)

lemma filter_map_attribute:
  "filter (\<lambda>kv. fst kv \<noteq> a) (map (\<lambda>kv. if fst kv = a then (a, v) else kv) xs)
   = filter (\<lambda>kv. fst kv \<noteq> a) xs"
  by (induction xs) auto

lemma without_blur_marks_setProperty:
  "without_blur_marks (setProperty ''filter'' v i e) = without_blur_marks e"
  by (simp add: without_blur_marks_def setProperty_def filter_set_declaration classList_def)

lemma without_blur_marks_classList_add:
  "without_blur_marks (classList_add ''blur-anything-blurred'' e) = without_blur_marks e"
  by (simp add: without_blur_marks_def class_simps)

lemma without_blur_marks_setAttribute:
  "without_blur_marks (setAttribute ''data-blur-applied'' v e) = without_blur_marks e"
  by (simp add: without_blur_marks_def setAttribute_def filter_map_attribute classList_def)

lemma without_blur_marks_fallbacks:
  "without_blur_marks (applyBlurWithFallbacks i e) = without_blur_marks e"
  by (simp add: applyBlurWithFallbacks_def without_blur_marks_setProperty
        split: option.splits css_value.splits)

lemma without_blur_marks_canApply:
  "without_blur_marks (snd (canApplyBlurToElement e)) = without_blur_marks e"
  by (simp add: canApplyBlurToElement_def without_blur_marks_setProperty split: option.splits)

lemma without_blur_marks_after_apply:
  "without_blur_marks (after_apply i e) = without_blur_marks e"
proof (cases "canApplyBlurToElement e")
  case (Pair ok e1)
  then have "without_blur_marks e1 = without_blur_marks e"
    using without_blur_marks_canApply [of e] by simp
  then show ?thesis using Pair
    by (cases ok)
       (simp_all add: after_apply_def applyBlurToElement_def without_blur_marks_setAttribute
          without_blur_marks_classList_add without_blur_marks_fallbacks)
qed

lemma removeBlurFromElement_reads:
  "removeBlurFromElement (without_blur_marks e) = removeBlurFromElement e"
  by (simp add: removeBlurFromElement_def without_blur_marks_def removeProperty_def
        class_simps removeAttribute_def setProperty_def Let_def)

lemma remove_after_apply: "removeBlurFromElement (after_apply i e) = removeBlurFromElement e"
  using removeBlurFromElement_reads [of "after_apply i e"] removeBlurFromElement_reads [of e]
  by (simp add: without_blur_marks_after_apply)

lemma remove_after_applies:
  "removeBlurFromElement (after_applies is e) = removeBlurFromElement e"
  by (induction "is" arbitrary: e) (simp_all add: remove_after_apply)

lemma map_of_rewritten_same:
  "p \<in> fst ` set ds \<Longrightarrow>
   map_of (map (\<lambda>d. if fst d = p then (p, v, i) else d) ds) p = Some (v, i)"
  by (induction ds) auto

lemma map_of_rewritten_other:
  "q \<noteq> p \<Longrightarrow> map_of (map (\<lambda>d. if fst d = p then (p, v, i) else d) ds) q = map_of ds q"
  by (induction ds) auto

lemma map_of_set_declaration_same:
  "map_of (set_declaration p v i ds) p = Some (v, i)"
proof (cases "p \<in> fst ` set ds")
  case True
  then show ?thesis by (simp add: set_declaration_def map_of_rewritten_same)
next
  case False
  then have "map_of ds p = None" by (simp add: map_of_eq_None_iff)
  then show ?thesis using False by (simp add: set_declaration_def map_add_def)
qed

lemma map_of_set_declaration_other:
  "q \<noteq> p \<Longrightarrow> map_of (set_declaration p v i ds) q = map_of ds q"
  by (simp add: set_declaration_def map_of_rewritten_other map_add_def split: option.splits)

text \<open>The applier does write: two calls on a heading with a grey-scale filter.\<close>

lemma after_apply_example:
  "after_applies [10, 4] example_element =
     example_element
       \<lparr> className := ''headline blur-anything-blurred'',
         attributes := [(''data-blur-id'', ''blur-1-abc''), (''data-blur-applied'', ''true'')],
         style := [(''color'', Other ''red'', False),
                   (''filter'', Filters [OtherFn ''grayscale(1)'', BlurFn 4], False)] \<rparr>"
  by code_simp

text \<open>
  C3. After any number of calls of \<open>applyBlurToElement\<close> (each with an intensity of its
  own, returned or thrown), \<open>removeBlurFromElement\<close> leaves the element exactly as it
  leaves the element that was never blurred: nothing that the calls wrote survives. The
  class list is the original one without \<open>blur-anything-blurred\<close> and
  \<open>blur-anything-text-blur\<close>, the attributes are the original ones without
  \<open>data-blur-applied\<close> and \<open>data-blur-id\<close>, and the style declares \<open>filter: none\<close>,
  \<open>backdrop-filter: none\<close> and \<open>opacity: 1\<close>, each \<open>!important\<close>.
\<close>

theorem removeBlurFromElement_no_residue:
  "removeBlurFromElement (after_applies is e) = removeBlurFromElement e
   \<and> classList (removeBlurFromElement (after_applies is e))
       = filter (\<lambda>c. c \<noteq> ''blur-anything-blurred'' \<and> c \<noteq> ''blur-anything-text-blur'')
           (classList e)
   \<and> attributes (removeBlurFromElement (after_applies is e))
       = filter (\<lambda>kv. fst kv \<noteq> ''data-blur-applied'' \<and> fst kv \<noteq> ''data-blur-id'')
           (attributes e)
   \<and> map_of (style (removeBlurFromElement (after_applies is e))) ''filter''
       = Some (NoneValue, True)
   \<and> map_of (style (removeBlurFromElement (after_applies is e))) ''backdrop-filter''
       = Some (NoneValue, True)
   \<and> map_of (style (removeBlurFromElement (after_applies is e))) ''opacity''
       = Some (Other ''1'', True)"
proof -
  have eq: "removeBlurFromElement (after_applies is e) = removeBlurFromElement e"
    by (rule remove_after_applies)
  have "classList (removeBlurFromElement e)
       = removeAll ''blur-anything-text-blur'' (removeAll ''blur-anything-blurred'' (classList e))"
    by (simp add: removeBlurFromElement_def removeProperty_def class_simps
          removeAttribute_def setProperty_def Let_def)
  then have cl: "classList (removeBlurFromElement e)
       = filter (\<lambda>c. c \<noteq> ''blur-anything-blurred'' \<and> c \<noteq> ''blur-anything-text-blur'')
           (classList e)"
    by (simp add: removeAll_filter_not_eq conj_commute eq_commute)
  have at: "attributes (removeBlurFromElement e)
       = filter (\<lambda>kv. fst kv \<noteq> ''data-blur-applied'' \<and> fst kv \<noteq> ''data-blur-id'')
           (attributes e)"
    by (simp add: removeBlurFromElement_def removeProperty_def class_simps
          removeAttribute_def setProperty_def Let_def conj_commute)
  have st: "map_of (style (removeBlurFromElement e)) ''filter'' = Some (NoneValue, True)"
    "map_of (style (removeBlurFromElement e)) ''backdrop-filter'' = Some (NoneValue, True)"
    "map_of (style (removeBlurFromElement e)) ''opacity'' = Some (Other ''1'', True)"
    by (simp_all add: removeBlurFromElement_def removeProperty_def class_simps
          removeAttribute_def setProperty_def Let_def map_of_set_declaration_same
          map_of_set_declaration_other)
  show ?thesis using eq cl at st by simp
qed

subsection \<open>The cleanup queue\<close>

lemma nths_agree:
  assumes "\<And>j. j < length ys \<Longrightarrow> (j \<in> A) = (j \<in> B)"
  shows "nths ys A = nths ys B"
proof -
  have "filter (\<lambda>p. snd p \<in> A) (zip ys [0..<length ys])
        = filter (\<lambda>p. snd p \<in> B) (zip ys [0..<length ys])"
    by (rule filter_cong) (auto simp add: set_zip assms)
  then show ?thesis by (simp add: nths_def)
qed

lemma nths_splice1:
  assumes "i < length xs" and "\<And>r. r \<in> R \<Longrightarrow> r < i"
  shows "nths (splice1 i xs) (- R) = nths xs (- insert i R)"
proof -
  have len: "length (take i xs) = i" using assms(1) by simp
  have all1: "{j. j + i \<in> - R} = UNIV" using assms(2) by fastforce
  have all2: "{j. Suc j \<in> {j. j + i \<in> - insert i R}} = UNIV" using assms(2) by fastforce
  have notin: "0 \<notin> {j. j + i \<in> - insert i R}" by simp
  have below: "nths (take i xs) (- insert i R) = nths (take i xs) (- R)"
    by (rule nths_agree) (simp add: len)
  have mn: "min (length xs) i = i" using assms(1) by simp
  have l: "nths (splice1 i xs) (- R) = nths (take i xs) (- R) @ drop (Suc i) xs"
    using all1 by (simp add: splice1_def nths_append mn nths_all)
  have "xs = take i xs @ xs ! i # drop (Suc i) xs"
    using assms(1) by (rule id_take_nth_drop)
  then have "nths xs (- insert i R)
      = nths (take i xs @ xs ! i # drop (Suc i) xs) (- insert i R)" by simp
  also have "\<dots> = nths (take i xs) (- insert i R) @ drop (Suc i) xs"
    using all2 notin by (simp add: nths_append mn nths_Cons nths_all)
  finally show ?thesis using l below by simp
qed

lemma splice_all_descending:
  assumes "sorted (rev ds)" and "distinct ds" and "\<And>d. d \<in> set ds \<Longrightarrow> d < length xs"
  shows "splice_all ds (xs, c) = (nths xs (- set ds), c + length ds)"
  using assms
proof (induction ds arbitrary: xs c)
  case Nil
  then show ?case by (simp add: nths_all)
next
  case (Cons i rest)
  have lt: "r < i" if "r \<in> set rest" for r
  proof -
    have "r \<le> i" using Cons.prems(1) that by (simp add: sorted_append)
    moreover have "r \<noteq> i" using Cons.prems(2) that by auto
    ultimately show ?thesis by simp
  qed
  have i: "i < length xs" using Cons.prems(3) by simp
  have len: "length (splice1 i xs) = length xs - 1" using i by (simp add: splice1_def)
  have "splice_all rest (splice1 i xs, Suc c)
        = (nths (splice1 i xs) (- set rest), Suc c + length rest)"
  proof (rule Cons.IH)
    show "sorted (rev rest)" using Cons.prems(1) by (simp add: sorted_append)
    show "distinct rest" using Cons.prems(2) by simp
    show "d < length (splice1 i xs)" if "d \<in> set rest" for d
      using lt [OF that] i len by simp
  qed
  then show ?case using i nths_splice1 [OF i, of "set rest"] lt by simp
qed

lemma markBlurForCleanup_new: "index \<notin> set q \<Longrightarrow> markBlurForCleanup index q = q @ [index]"
  by (simp add: markBlurForCleanup_def)

lemma scan_marks_queue:
  assumes "sorted (q @ map snd zs)" and "distinct (q @ map snd zs)"
  shows "sorted (fst (scan_marks doc i zs (q, p)))
       \<and> distinct (fst (scan_marks doc i zs (q, p)))
       \<and> set (fst (scan_marks doc i zs (q, p))) \<subseteq> set q \<union> snd ` set zs"
  using assms
proof (induction zs arbitrary: q p)
  case Nil
  then show ?case by simp
next
  case (Cons bi rest)
  obtain cleanup p' where r: "restore_mark doc i (fst bi) (snd bi) p = (cleanup, p')"
    by (cases "restore_mark doc i (fst bi) (snd bi) p")
  show ?case
  proof (cases cleanup)
    case True
    have new: "markBlurForCleanup (snd bi) q = q @ [snd bi]"
      using Cons.prems(2) by (simp add: markBlurForCleanup_new)
    have "sorted ((q @ [snd bi]) @ map snd rest)" "distinct ((q @ [snd bi]) @ map snd rest)"
      using Cons.prems by simp_all
    from Cons.IH [OF this, of p'] show ?thesis using r True new by auto
  next
    case False
    have "sorted (q @ map snd rest)" "distinct (q @ map snd rest)"
      using Cons.prems by (simp_all add: sorted_append)
    from Cons.IH [OF this, of p'] show ?thesis using r False by auto
  qed
qed

lemma scan_pass_queue:
  assumes "blursToCleanup s = []"
  shows "sorted (fst (scan_pass doc s p)) \<and> distinct (fst (scan_pass doc s p))
       \<and> set (fst (scan_pass doc s p)) \<subseteq> {..<length (blurredElements s)}"
proof -
  let ?zs = "zip (blurredElements s) [0 ..< length (blurredElements s)]"
  have m: "map snd ?zs = [0 ..< length (blurredElements s)]" by simp
  have "sorted ([] @ map snd ?zs)" "distinct ([] @ map snd ?zs)" by (simp_all add: m)
  from scan_marks_queue [OF this, of doc "blurIntensity s" p]
  have "sorted (fst (scan_pass doc s p)) \<and> distinct (fst (scan_pass doc s p))
       \<and> set (fst (scan_pass doc s p)) \<subseteq> snd ` set ?zs"
    by (simp add: scan_pass_def assms)
  moreover have "snd ` set ?zs = set (map snd ?zs)" by (simp only: set_map)
  ultimately show ?thesis by (auto simp add: m simp del: set_map)
qed

text \<open>
  C6. A pass that starts with an empty queue: the scan only fills the queue, with
  distinct indices of marks, and writes no mark; the list of marks after the pass is
  the list before it without the marks at the queued indices, in the old order; the
  queue is empty again; the page is as the scan left it; and \<open>saveBlurData\<close> is called,
  once, after the removal and with the new list, exactly when the queue was not empty.
\<close>

theorem applyExistingBlurs_flush:
  assumes "blursToCleanup s = []"
  shows "distinct (fst (scan_pass doc s p))
       \<and> set (fst (scan_pass doc s p)) \<subseteq> {..<length (blurredElements s)}
       \<and> blurredElements (fst (applyExistingBlurs doc s p))
           = nths (blurredElements s) (- set (fst (scan_pass doc s p)))
       \<and> blursToCleanup (fst (applyExistingBlurs doc s p)) = []
       \<and> snd (applyExistingBlurs doc s p) = (if blurredElements s = [] then p else snd (scan_pass doc s p))
       \<and> effects (fst (applyExistingBlurs doc s p))
           = effects s @
             (if fst (scan_pass doc s p) = [] then []
              else [SaveBlurData (blurredElements (fst (applyExistingBlurs doc s p)))])"
proof -
  obtain queue p' where sp: "scan_pass doc s p = (queue, p')" by (cases "scan_pass doc s p")
  have q: "sorted queue" "distinct queue" "set queue \<subseteq> {..<length (blurredElements s)}"
    using scan_pass_queue [OF assms, of doc p] sp by simp_all
  have rs: "rev (sort queue) = rev queue" using q(1) by (simp add: sorted_sort_id)
  have sa: "splice_all (rev queue) (blurredElements s, 0)
        = (nths (blurredElements s) (- set (rev queue)), 0 + length (rev queue))"
  proof (rule splice_all_descending)
    show "sorted (rev (rev queue))" using q(1) by simp
    show "distinct (rev queue)" using q(2) by simp
    show "d < length (blurredElements s)" if "d \<in> set (rev queue)" for d
      using that q(3) by auto
  qed
  show ?thesis
  proof (cases "blurredElements s = []")
    case True
    then have "queue = []" using q(3) by auto
    then show ?thesis using True sp assms by (simp add: applyExistingBlurs_def)
  next
    case False
    show ?thesis
    proof (cases "queue = []")
      case True
      then show ?thesis using False sp assms q
        by (simp add: applyExistingBlurs_def performBlurCleanup_def nths_all)
    next
      case ne: False
      then show ?thesis using False sp q sa rs
        by (simp add: applyExistingBlurs_def performBlurCleanup_def Let_def)
    qed
  qed
qed

theorem applyExistingBlurs_flush_witness:
  "fst (scan_pass example_oracle
          (loaded_state [gone_mark, example_mark, text_mark ''sold out'']) example_page) = [0, 2]
   \<and> blurredElements (fst (applyExistingBlurs example_oracle
          (loaded_state [gone_mark, example_mark, text_mark ''sold out'']) example_page))
       = [example_mark]
   \<and> blursToCleanup (fst (applyExistingBlurs example_oracle
          (loaded_state [gone_mark, example_mark, text_mark ''sold out'']) example_page)) = []
   \<and> effects (fst (applyExistingBlurs example_oracle
          (loaded_state [gone_mark, example_mark, text_mark ''sold out'']) example_page))
       = [SaveBlurData [example_mark]]"
proof -
  have h: "blursToCleanup (loaded_state [gone_mark, example_mark, text_mark ''sold out'']) = []"
    by (simp add: loaded_state_def initial_state_def)
  have q: "fst (scan_pass example_oracle
          (loaded_state [gone_mark, example_mark, text_mark ''sold out'']) example_page) = [0, 2]"
    by code_simp
  have r: "blurredElements (fst (applyExistingBlurs example_oracle
          (loaded_state [gone_mark, example_mark, text_mark ''sold out'']) example_page))
       = [example_mark]"
    by code_simp
  have e: "effects (loaded_state [gone_mark, example_mark, text_mark ''sold out'']) = []"
    by (simp add: loaded_state_def initial_state_def)
  show ?thesis
    using applyExistingBlurs_flush [OF h, of example_oracle example_page] q r e by simp
qed

subsection \<open>Restoration and the markers of the effects\<close>

lemma untouched_invariant: "untouched p \<Longrightarrow> restoration_invariant p"
  by (auto simp add: untouched_def restoration_invariant_def list_all2_conv_all_nth
        marked_once_def wrapped_once_def list_all_iff)

lemma classList_canApply: "classList (snd (canApplyBlurToElement e)) = classList e"
  by (simp add: canApplyBlurToElement_def setProperty_def classList_def split: option.splits)

lemma classList_setAttribute: "classList (setAttribute a v e) = classList e"
  by (simp add: setAttribute_def classList_def)

lemma classList_applyBlur:
  "applyBlurToElement i e = Returns e' \<Longrightarrow> ''blur-anything-blurred'' \<in> set (classList e')"
  by (auto simp add: applyBlurToElement_def classList_setAttribute classList_classList_add
        class_token_blurred split: prod.splits bool.splits)

lemma classList_restoreText:
  "c \<in> set (classList e) \<Longrightarrow> c \<in> set (classList (restoreTextBlurBySelector i e))"
  by (simp add: restoreTextBlurBySelector_def setProperty_def Let_def classList_other_fields
        classList_classList_add class_token_text_blur)

lemma marked_once_update:
  assumes "list_all2 marked_once cs es" and "k < length es"
    and "\<And>c. c \<in> set (classList (es ! k)) \<Longrightarrow> c \<in> set (classList e')"
  shows "list_all2 marked_once cs (es[k := e'])"
proof -
  have "marked_once (cs ! k) (es ! k)"
    using assms(1,2) by (simp add: list_all2_conv_all_nth)
  then have "marked_once (cs ! k) e'" using assms(3) by (auto simp add: marked_once_def)
  then have "list_all2 marked_once (cs[k := cs ! k]) (es[k := e'])"
    using assms(1) by (rule list_all2_update_cong [rotated])
  then show ?thesis by simp
qed

lemma marked_once_apply:
  assumes "list_all2 marked_once cs es" and "k < length es"
    and "''blur-anything-blurred'' \<notin> set (classList (es ! k))"
    and "''blur-anything-blurred'' \<in> set (classList e')"
  shows "list_all2 marked_once (bump k cs) (es[k := e'])"
proof -
  have len: "length cs = length es" using assms(1) by (rule list_all2_lengthD)
  have "marked_once (cs ! k) (es ! k)"
    using assms(1,2) by (simp add: list_all2_conv_all_nth)
  then have "cs ! k = 0" using assms(3) by (simp add: marked_once_def)
  then have "marked_once (Suc (cs ! k)) e'" using assms(4) by (simp add: marked_once_def)
  then have "list_all2 marked_once (cs[k := Suc (cs ! k)]) (es[k := e'])"
    using assms(1) by (rule list_all2_update_cong [rotated])
  then show ?thesis using len assms(2) by (simp add: bump_def)
qed

lemma first_index_less: "first_index P xs = Some k \<Longrightarrow> k < length xs"
  by (induction xs arbitrary: k) (auto split: if_splits)

lemma in_page_less: "in_page p r = Some k \<Longrightarrow> k < length (elements p)"
  by (auto simp add: in_page_def split: option.splits if_splits)

text \<open>
  \<open>createFallbackSelector\<close> writes an attribute of one element and nothing else, and
  the element it finds is in the list.
\<close>

lemma createFallbackSelector_page:
  assumes "createFallbackSelector doc b index p = (r, p1)"
  shows "areas p1 = areas p" and "textNodes p1 = textNodes p"
    and "applyCalls p1 = applyCalls p"
    and "restoration_invariant p \<Longrightarrow> restoration_invariant p1"
    and "r = Some k \<Longrightarrow> k < length (elements p1)"
proof -
  show "areas p1 = areas p" "textNodes p1 = textNodes p" "applyCalls p1 = applyCalls p"
    using assms
    by (auto simp add: createFallbackSelector_def Let_def split: option.splits)
  show "restoration_invariant p1" if inv: "restoration_invariant p"
  proof (cases "in_page p (simplifiedQuery doc p (selector b))")
    case (Some j)
    then show ?thesis using assms inv by (simp add: createFallbackSelector_def)
  next
    case None
    show ?thesis
    proof (cases "first_index (\<lambda>el. \<not> hasAttribute ''data-blur-fallback'' el) (elements p)")
      case no: None
      then show ?thesis using assms inv None by (simp add: createFallbackSelector_def)
    next
      case (Some i)
      have i: "i < length (elements p)" using Some by (rule first_index_less)
      have p1: "p1 = p\<lparr> elements := (elements p)[i := setAttribute ''data-blur-fallback''
                         (recoveryId doc index) (elements p ! i)] \<rparr>"
        using assms None Some by (simp add: createFallbackSelector_def Let_def)
      have "list_all2 marked_once (applyCalls p) (elements p)"
        using inv by (simp add: restoration_invariant_def)
      then have "list_all2 marked_once (applyCalls p)
          ((elements p)[i := setAttribute ''data-blur-fallback'' (recoveryId doc index)
                              (elements p ! i)])"
        using i by (rule marked_once_update) (simp add: classList_setAttribute)
      then show ?thesis using inv p1 by (simp add: restoration_invariant_def)
    qed
  qed
  show "k < length (elements p1)" if "r = Some k"
    using assms that
    by (auto simp add: createFallbackSelector_def Let_def
          split: option.splits dest: in_page_less first_index_less)
qed

text \<open>The check of the marker class and the call of \<open>applyBlurToElement\<close>.\<close>

lemma apply_unless_marked_invariant:
  assumes "restoration_invariant p" and k: "k < length (elements p)"
  shows "restoration_invariant
      (snd (case canApplyBlurToElement (elements p ! k) of
         (False, e1) \<Rightarrow> (False, p)
       | (True, e1) \<Rightarrow>
           if ''blur-anything-blurred'' \<in> set (classList e1)
           then (False, p\<lparr> elements := (elements p)[k := e1] \<rparr>)
           else
             (case applyBlurToElement i e1 of
                Returns e2 \<Rightarrow>
                  (False, p\<lparr> elements := (elements p)[k := e2],
                              applyCalls := bump k (applyCalls p) \<rparr>)
              | Throws \<Rightarrow> (False, p\<lparr> elements := (elements p)[k := e1] \<rparr>))))"
proof (cases "canApplyBlurToElement (elements p ! k)")
  case (Pair ok e1)
  have inv: "list_all2 marked_once (applyCalls p) (elements p)"
    using assms by (simp add: restoration_invariant_def)
  have rest: "distinct (map area_coords (areas p))" "list_all wrapped_once (textNodes p)"
    using assms by (simp_all add: restoration_invariant_def)
  have cl: "classList e1 = classList (elements p ! k)"
    using classList_canApply [of "elements p ! k"] Pair by simp
  show ?thesis
  proof (cases ok)
    case False
    then show ?thesis using Pair assms by simp
  next
    case True
    have same: "list_all2 marked_once (applyCalls p) ((elements p)[k := e1])"
      using inv k cl by (rule_tac marked_once_update) simp_all
    show ?thesis
    proof (cases "''blur-anything-blurred'' \<in> set (classList e1)")
      case yes: True
      then show ?thesis using Pair True same rest by (simp add: restoration_invariant_def)
    next
      case no: False
      show ?thesis
      proof (cases "applyBlurToElement i e1")
        case Throws
        then show ?thesis using Pair True no same rest
          by (simp add: restoration_invariant_def)
      next
        case (Returns e2)
        have "list_all2 marked_once (bump k (applyCalls p)) ((elements p)[k := e2])"
          using inv k no cl classList_applyBlur [OF Returns]
          by (rule_tac marked_once_apply) simp_all
        then show ?thesis using Pair True no Returns rest
          by (simp add: restoration_invariant_def)
      qed
    qed
  qed
qed

lemma apply_unless_marked_areas:
  "areas (snd (case canApplyBlurToElement (elements p ! k) of
         (False, e1) \<Rightarrow> (False, p)
       | (True, e1) \<Rightarrow>
           if ''blur-anything-blurred'' \<in> set (classList e1)
           then (False, p\<lparr> elements := (elements p)[k := e1] \<rparr>)
           else
             (case applyBlurToElement i e1 of
                Returns e2 \<Rightarrow>
                  (False, p\<lparr> elements := (elements p)[k := e2],
                              applyCalls := bump k (applyCalls p) \<rparr>)
              | Throws \<Rightarrow> (False, p\<lparr> elements := (elements p)[k := e1] \<rparr>)))) = areas p"
  by (simp split: prod.splits bool.splits outcome.splits)

text \<open>
  The element that the branch for element marks works on, and the page after the
  search for it.
\<close>

lemma restore_element_mark_found:
  obtains "selector b = RawSelector []"
      and "restore_element_mark doc i b index p = (False, p)"
  | p0 where "areas p0 = areas p" and "restoration_invariant p \<Longrightarrow> restoration_invariant p0"
      and "restore_element_mark doc i b index p = (True, p0)"
  | p0 k where "areas p0 = areas p" and "restoration_invariant p \<Longrightarrow> restoration_invariant p0"
      and "k < length (elements p0)"
      and "restore_element_mark doc i b index p =
        (case canApplyBlurToElement (elements p0 ! k) of
           (False, e1) \<Rightarrow> (False, p0)
         | (True, e1) \<Rightarrow>
             if ''blur-anything-blurred'' \<in> set (classList e1)
             then (False, p0\<lparr> elements := (elements p0)[k := e1] \<rparr>)
             else
               (case applyBlurToElement i e1 of
                  Returns e2 \<Rightarrow>
                    (False, p0\<lparr> elements := (elements p0)[k := e2],
                                 applyCalls := bump k (applyCalls p0) \<rparr>)
                | Throws \<Rightarrow> (False, p0\<lparr> elements := (elements p0)[k := e1] \<rparr>)))"
proof (cases "selector b = RawSelector []")
  case True
  then show ?thesis using that(1) by (simp add: restore_element_mark_def)
next
  case raw: False
  define search where "search =
    (case query doc p (selector b) of
       Returns r \<Rightarrow> (in_page p r, p)
     | Throws \<Rightarrow>
         (case createFallbackSelector doc b index p of
            (Some k, p1) \<Rightarrow> (Some k, p1)
          | (None, p1) \<Rightarrow> (in_page p1 (blurIdQuery doc p1 (selector b)), p1)))"
  obtain found p0 where s: "search = (found, p0)" by (cases search)
  have page: "areas p0 = areas p"
    and inv: "restoration_invariant p \<Longrightarrow> restoration_invariant p0"
    and less: "\<And>k. found = Some k \<Longrightarrow> k < length (elements p0)"
  proof -
    show "areas p0 = areas p"
    proof (cases "query doc p (selector b)")
      case (Returns r)
      then show ?thesis using s by (simp add: search_def)
    next
      case Throws
      obtain r p1 where c: "createFallbackSelector doc b index p = (r, p1)"
        by (cases "createFallbackSelector doc b index p")
      then show ?thesis
        using s Throws createFallbackSelector_page(1) [OF c]
        by (auto simp add: search_def split: option.splits)
    qed
    show "restoration_invariant p0" if "restoration_invariant p"
    proof (cases "query doc p (selector b)")
      case (Returns r)
      then show ?thesis using s that by (simp add: search_def)
    next
      case Throws
      obtain r p1 where c: "createFallbackSelector doc b index p = (r, p1)"
        by (cases "createFallbackSelector doc b index p")
      then show ?thesis
        using s Throws createFallbackSelector_page(4) [OF c that]
        by (auto simp add: search_def split: option.splits)
    qed
    show "k < length (elements p0)" if "found = Some k" for k
    proof (cases "query doc p (selector b)")
      case (Returns r)
      then show ?thesis using s that by (auto simp add: search_def dest: in_page_less)
    next
      case Throws
      obtain r p1 where c: "createFallbackSelector doc b index p = (r, p1)"
        by (cases "createFallbackSelector doc b index p")
      then show ?thesis
        using s Throws that createFallbackSelector_page(5) [OF c]
        by (auto simp add: search_def split: option.splits dest: in_page_less)
    qed
  qed
  have unfold: "restore_element_mark doc i b index p =
      (case found of
         None \<Rightarrow> (True, p0)
       | Some k \<Rightarrow>
           (case canApplyBlurToElement (elements p0 ! k) of
              (False, e1) \<Rightarrow> (False, p0)
            | (True, e1) \<Rightarrow>
                if ''blur-anything-blurred'' \<in> set (classList e1)
                then (False, p0\<lparr> elements := (elements p0)[k := e1] \<rparr>)
                else
                  (case applyBlurToElement i e1 of
                     Returns e2 \<Rightarrow>
                       (False, p0\<lparr> elements := (elements p0)[k := e2],
                                    applyCalls := bump k (applyCalls p0) \<rparr>)
                   | Throws \<Rightarrow> (False, p0\<lparr> elements := (elements p0)[k := e1] \<rparr>))))"
    using raw s unfolding restore_element_mark_def search_def by simp
  show ?thesis
  proof (cases found)
    case None
    then show ?thesis using that(2) [of p0] page inv unfold by simp
  next
    case (Some k)
    then show ?thesis using that(3) [of p0 k] page inv less unfold by simp
  qed
qed

lemma restore_element_mark_invariant:
  assumes "restoration_invariant p"
  shows "restoration_invariant (snd (restore_element_mark doc i b index p))"
proof (cases rule: restore_element_mark_found [of b doc i index p])
  case 1
  then show ?thesis using assms by simp
next
  case (2 p0)
  then show ?thesis using assms by simp
next
  case (3 p0 k)
  then show ?thesis
    using assms apply_unless_marked_invariant [of p0 k i] by simp
qed

lemma restore_element_mark_areas:
  "areas (snd (restore_element_mark doc i b index p)) = areas p"
proof (cases rule: restore_element_mark_found [of b doc i index p])
  case 1
  then show ?thesis by simp
next
  case (2 p0)
  then show ?thesis by simp
next
  case (3 p0 k)
  then show ?thesis using apply_unless_marked_areas [of p0 k i] by simp
qed

lemma area_coords_blur_first_area:
  "map area_coords (blur_first_area xy i as) = map area_coords as"
  by (induction as) (simp_all add: createProperBlurOverlay_def)

lemma restore_area_mark_invariant:
  assumes "restoration_invariant p"
  shows "restoration_invariant (restore_area_mark i c p)"
  using assms
  by (auto simp add: restore_area_mark_def recreateBlurArea_def restoration_invariant_def
        area_coords_blur_first_area createProperBlurOverlay_def Let_def)

lemma wrap_first_invariant:
  assumes "list_all wrapped_once ns" and "wrap_first t ns = Some ns'"
  shows "list_all wrapped_once ns'"
  using assms
proof (induction ns arbitrary: ns')
  case Nil
  then show ?case by simp
next
  case (Cons n ns)
  then show ?case
    by (auto simp add: wrapped_once_def split: if_splits option.splits)
qed

lemma restore_text_mark_invariant:
  assumes "restoration_invariant p"
  shows "restoration_invariant (snd (restore_text_mark doc i b index p))"
proof -
  have inv: "list_all2 marked_once (applyCalls p) (elements p)"
    using assms by (simp add: restoration_invariant_def)
  have rest: "distinct (map area_coords (areas p))" "list_all wrapped_once (textNodes p)"
    using assms by (simp_all add: restoration_invariant_def)
  have el: "restoration_invariant
      (p\<lparr> elements := (elements p)[k := restoreTextBlurBySelector i (elements p ! k)],
          textRestores := bump k (textRestores p) \<rparr>)"
    if "in_page p r = Some k" for r k
  proof -
    have k: "k < length (elements p)" using that by (rule in_page_less)
    have "list_all2 marked_once (applyCalls p)
            ((elements p)[k := restoreTextBlurBySelector i (elements p ! k)])"
      using inv k by (rule marked_once_update) (rule classList_restoreText)
    then show ?thesis using rest by (simp add: restoration_invariant_def)
  qed
  have tx: "restoration_invariant p'" if "findAndBlurTextContent t p = Some p'" for t p'
    using that inv rest wrap_first_invariant [of "textNodes p" "trim t"]
    by (auto simp add: findAndBlurTextContent_def restoration_invariant_def
          split: if_splits)
  show ?thesis
    unfolding restore_text_mark_def
    using assms el tx by (auto split: option.splits outcome.splits)
qed

lemma restore_text_mark_areas:
  "areas (snd (restore_text_mark doc i b index p)) = areas p"
  by (auto simp add: restore_text_mark_def findAndBlurTextContent_def
        split: option.splits outcome.splits if_splits)

lemma restore_mark_invariant:
  assumes "restoration_invariant p"
  shows "restoration_invariant (snd (restore_mark doc i b index p))"
  using assms restore_element_mark_invariant [OF assms, of doc i b index]
    restore_text_mark_invariant [OF assms, of doc i b index]
    restore_area_mark_invariant [OF assms]
  by (simp add: restore_mark_def split: blur_type.splits option.splits)

lemma scan_marks_invariant:
  "restoration_invariant p \<Longrightarrow> restoration_invariant (snd (scan_marks doc i zs (q, p)))"
proof (induction zs arbitrary: q p)
  case Nil
  then show ?case by simp
next
  case (Cons bi rest)
  obtain cleanup p' where r: "restore_mark doc i (fst bi) (snd bi) p = (cleanup, p')"
    by (cases "restore_mark doc i (fst bi) (snd bi) p")
  then have "restoration_invariant p'"
    using restore_mark_invariant [OF Cons.prems, of doc i "fst bi" "snd bi"] by simp
  then show ?case using Cons.IH r by simp
qed

lemma applyExistingBlurs_invariant:
  "restoration_invariant p \<Longrightarrow> restoration_invariant (snd (applyExistingBlurs doc s p))"
  using scan_marks_invariant [of p doc "blurIntensity s"
      "zip (blurredElements s) [0 ..< length (blurredElements s)]" "blursToCleanup s"]
  by (auto simp add: applyExistingBlurs_def scan_pass_def split: prod.splits)

lemma preInjectBlurCSS_page:
  "elements (preInjectBlurCSS i bs p) = elements p"
  "applyCalls (preInjectBlurCSS i bs p) = applyCalls p"
  "areas (preInjectBlurCSS i bs p) = areas p"
  "textNodes (preInjectBlurCSS i bs p) = textNodes p"
  by (simp_all add: preInjectBlurCSS_def Let_def)

lemma restore_invariant:
  "restoration_invariant p \<Longrightarrow> restoration_invariant (restore r p)"
proof (cases r)
  case (Scheduled doc s)
  then show "restoration_invariant p \<Longrightarrow> restoration_invariant (restore r p)"
    by (simp add: applyExistingBlurs_invariant)
next
  case (BeforeLoading doc href item s)
  assume inv: "restoration_invariant p"
  let ?marks = "loadBlurDataLocally href item"
  have "restoration_invariant (preInjectBlurCSS (blurIntensity s) ?marks p)"
    using inv by (simp add: restoration_invariant_def preInjectBlurCSS_page)
  then show "restoration_invariant (restore r p)"
    using BeforeLoading inv
    by (simp add: attemptImmediateBlurRestoration_def Let_def applyExistingBlurs_invariant)
qed

lemma passes_invariant:
  "restoration_invariant p \<Longrightarrow> restoration_invariant (passes rs p)"
  by (induction rs arbitrary: p) (simp_all add: restore_invariant)

text \<open>A blur area whose inline style has the blur stays as it is.\<close>

lemma blurred_areas_kept_iff:
  "blurred_areas_kept p q \<longleftrightarrow>
     length (areas p) \<le> length (areas q)
     \<and> (\<forall>i < length (areas p). area_backdrop (areas p ! i) \<noteq> None
            \<longrightarrow> areas q ! i = areas p ! i)"
  by (auto simp add: blurred_areas_kept_def list_all_iff)

lemma blurred_areas_kept_same: "areas q = areas p \<Longrightarrow> blurred_areas_kept p q"
  by (simp add: blurred_areas_kept_iff)

lemma blurred_areas_kept_trans:
  assumes "blurred_areas_kept p q" and "blurred_areas_kept q r"
  shows "blurred_areas_kept p r"
  unfolding blurred_areas_kept_iff
proof (intro conjI allI impI)
  show "length (areas p) \<le> length (areas r)"
    using assms by (simp add: blurred_areas_kept_iff)
next
  fix i
  assume i: "i < length (areas p)" and b: "area_backdrop (areas p ! i) \<noteq> None"
  have pq: "areas q ! i = areas p ! i" using assms(1) i b by (simp add: blurred_areas_kept_iff)
  have "i < length (areas q)" using assms(1) i by (simp add: blurred_areas_kept_iff)
  then have "areas r ! i = areas q ! i"
    using assms(2) b pq by (simp add: blurred_areas_kept_iff)
  then show "areas r ! i = areas p ! i" using pq by simp
qed

lemma blur_first_area_kept:
  "length (blur_first_area xy i as) = length as
   \<and> (\<forall>k < length as. area_backdrop (as ! k) \<noteq> None \<longrightarrow> blur_first_area xy i as ! k = as ! k)"
proof (induction as)
  case Nil
  then show ?case by simp
next
  case (Cons a as)
  show ?case
  proof (cases "area_coords a = xy")
    case True
    then show ?thesis by (auto simp add: nth_Cons split: nat.splits)
  next
    case False
    then show ?thesis using Cons by (auto simp add: nth_Cons split: nat.splits)
  qed
qed

lemma restore_area_mark_kept: "blurred_areas_kept p (restore_area_mark i c p)"
  using blur_first_area_kept [of "(coord_x c, coord_y c)" i "areas p"]
  by (auto simp add: blurred_areas_kept_iff restore_area_mark_def recreateBlurArea_def
        Let_def nth_append)

lemma restore_mark_kept: "blurred_areas_kept p (snd (restore_mark doc i b index p))"
  by (simp add: restore_mark_def restore_area_mark_kept blurred_areas_kept_same
        restore_element_mark_areas restore_text_mark_areas
        split: blur_type.splits option.splits)

lemma scan_marks_kept: "blurred_areas_kept p (snd (scan_marks doc i zs (q, p)))"
proof (induction zs arbitrary: q p)
  case Nil
  then show ?case by (simp add: blurred_areas_kept_same)
next
  case (Cons bi rest)
  obtain cleanup p' where r: "restore_mark doc i (fst bi) (snd bi) p = (cleanup, p')"
    by (cases "restore_mark doc i (fst bi) (snd bi) p")
  then have first: "blurred_areas_kept p p'"
    using restore_mark_kept [of p doc i "fst bi" "snd bi"] by simp
  have "blurred_areas_kept p (snd (scan_marks doc i rest (q', p')))" for q'
    using first Cons.IH [of p' q'] by (rule blurred_areas_kept_trans)
  then show ?case using r by simp
qed

lemma applyExistingBlurs_kept: "blurred_areas_kept p (snd (applyExistingBlurs doc s p))"
  using scan_marks_kept [of p doc "blurIntensity s"
      "zip (blurredElements s) [0 ..< length (blurredElements s)]" "blursToCleanup s"]
  by (auto simp add: applyExistingBlurs_def scan_pass_def blurred_areas_kept_same
        split: prod.splits)

lemma restore_kept: "blurred_areas_kept p (restore r p)"
proof (cases r)
  case (Scheduled doc s)
  then show ?thesis by (simp add: applyExistingBlurs_kept)
next
  case (BeforeLoading doc href item s)
  let ?p = "preInjectBlurCSS (blurIntensity s) (loadBlurDataLocally href item) p"
  have "blurred_areas_kept p ?p"
    by (simp add: blurred_areas_kept_same preInjectBlurCSS_page)
  moreover have "blurred_areas_kept ?p
      (snd (applyExistingBlurs doc (s\<lparr> blurredElements := loadBlurDataLocally href item \<rparr>) ?p))"
    by (rule applyExistingBlurs_kept)
  ultimately show ?thesis
    using BeforeLoading
    by (auto simp add: attemptImmediateBlurRestoration_def Let_def blurred_areas_kept_same
          intro: blurred_areas_kept_trans)
qed

lemma passes_kept: "blurred_areas_kept p (passes rs p)"
proof (induction rs arbitrary: p)
  case Nil
  then show ?case by (simp add: blurred_areas_kept_same)
next
  case (Cons r rs)
  have "blurred_areas_kept p (restore r p)" by (rule restore_kept)
  moreover have "blurred_areas_kept (restore r p) (passes rs (restore r p))" by (rule Cons.IH)
  ultimately show ?case by (simp add: blurred_areas_kept_trans)
qed

lemma passes_append: "passes (rs @ later) p = passes later (passes rs p)"
  by (induction rs arbitrary: p) simp_all

text \<open>
  The claim that restoration never applies the effect of a mark to the same target
  twice fails in three places. A text mark whose selector resolves: the page holds
  the span of the mark with the class \<open>blur-anything-text-blur\<close>;
  \<open>restoreTextBlurBySelector\<close> finds the class and writes the style all the same, at
  the immediate pass and again at the retry, so the blur of 10 becomes 4 and then 7.
  An area mark: the first pass creates the blur area, the second pass finds it by its
  \<open>data-coords\<close> and, as its inline style has no blur, calls
  \<open>createProperBlurOverlay\<close> on it a second time. The restoration before loading: it
  installs the rule \<^verbatim>\<open>#title { filter: blur(10px) !important; }\<close> without looking at a
  marker and then writes the blur to the inline style of the same heading.
\<close>

theorem restoration_applies_twice:
  "untouched span_page
   \<and> textRestores (passes text_passes span_page) = [0, 2]
   \<and> getPropertyValue ''filter'' (elements span_page ! 1) = Some (Filters [BlurFn 10])
   \<and> getPropertyValue ''filter'' (elements (passes (take 1 text_passes) span_page) ! 1)
       = Some (Filters [BlurFn 4])
   \<and> getPropertyValue ''filter'' (elements (passes text_passes span_page) ! 1)
       = Some (Filters [BlurFn 7])
   \<and> \<not> applied_at_most_once (passes text_passes span_page)
   \<and> untouched example_page
   \<and> map area_overlayCalls (areas (passes area_passes example_page)) = [2]
   \<and> \<not> applied_at_most_once (passes area_passes example_page)
   \<and> styleSheets (passes (take 1 example_passes) example_page)
       = [[FilterRule (IdSelector ''title'') 10,
           BackdropRule \<lparr> coord_x = 50, coord_y = 50, coord_width = 100,
                          coord_height = 100 \<rparr> 10]]
   \<and> getPropertyValue ''filter'' (elements (passes (take 1 example_passes) example_page) ! 0)
       = Some (Filters [BlurFn 10])"
proof -
  have "untouched span_page" by code_simp
  moreover have "textRestores (passes text_passes span_page) = [0, 2]" by code_simp
  moreover have "getPropertyValue ''filter'' (elements span_page ! 1)
      = Some (Filters [BlurFn 10])" by code_simp
  moreover have "getPropertyValue ''filter''
      (elements (passes (take 1 text_passes) span_page) ! 1) = Some (Filters [BlurFn 4])"
    by code_simp
  moreover have "getPropertyValue ''filter'' (elements (passes text_passes span_page) ! 1)
      = Some (Filters [BlurFn 7])" by code_simp
  moreover have "\<not> applied_at_most_once (passes text_passes span_page)" by code_simp
  moreover have "untouched example_page" by code_simp
  moreover have "map area_overlayCalls (areas (passes area_passes example_page)) = [2]"
    by code_simp
  moreover have "\<not> applied_at_most_once (passes area_passes example_page)" by code_simp
  moreover have "styleSheets (passes (take 1 example_passes) example_page)
       = [[FilterRule (IdSelector ''title'') 10,
           BackdropRule \<lparr> coord_x = 50, coord_y = 50, coord_width = 100,
                          coord_height = 100 \<rparr> 10]]" by code_simp
  moreover have "getPropertyValue ''filter''
      (elements (passes (take 1 example_passes) example_page) ! 0)
       = Some (Filters [BlurFn 10])" by code_simp
  ultimately show ?thesis by simp
qed

text \<open>
  C7, as the code has it. From a page on which restoration has done nothing yet, after
  every sequence of passes (scheduled ones and restorations before loading, each with
  any marks, any intensity and any answers of the document): \<open>applyBlurToElement\<close> has
  returned at most once on every element, as it runs only on an element without the
  class \<open>blur-anything-blurred\<close>; no two blur areas have the same \<open>data-coords\<close>, as an
  area is created only when none has the coordinates of the mark; no text is inside
  more than one text blur span, as the scan skips the text of a span; and a blur area
  whose inline style has the blur is left as it is by every later pass, as
  \<open>createProperBlurOverlay\<close> runs on an area that is there only when its inline style
  has no blur. Nothing is said of a text mark whose selector resolves, nor of the rules
  that the restoration before loading installs.
\<close>

theorem restoration_checks_markers:
  assumes "untouched p"
  shows "list_all (\<lambda>c. c \<le> 1) (applyCalls (passes rs p))
       \<and> distinct (map area_coords (areas (passes rs p)))
       \<and> list_all (\<lambda>n. tn_wrappers n \<le> 1) (textNodes (passes rs p))
       \<and> blurred_areas_kept (passes rs p) (passes (rs @ later) p)"
proof -
  have inv: "restoration_invariant (passes rs p)"
    using assms by (simp add: untouched_invariant passes_invariant)
  have "c \<le> 1" if cin: "c \<in> set (applyCalls (passes rs p))" for c
  proof -
    obtain k where k: "k < length (applyCalls (passes rs p))"
      and c: "applyCalls (passes rs p) ! k = c"
      using cin by (auto simp add: in_set_conv_nth)
    have "marked_once (applyCalls (passes rs p) ! k) (elements (passes rs p) ! k)"
      using inv k by (simp add: restoration_invariant_def list_all2_nthD)
    then show ?thesis using c by (auto simp add: marked_once_def)
  qed
  then have "list_all (\<lambda>c. c \<le> 1) (applyCalls (passes rs p))"
    by (simp add: list_all_iff)
  moreover have "list_all (\<lambda>n. tn_wrappers n \<le> 1) (textNodes (passes rs p))"
    using inv by (auto simp add: restoration_invariant_def list_all_iff wrapped_once_def)
  moreover have "blurred_areas_kept (passes rs p) (passes (rs @ later) p)"
    by (simp add: passes_append passes_kept)
  ultimately show ?thesis
    using inv by (simp add: restoration_invariant_def)
qed

theorem restoration_checks_markers_witness:
  "applyCalls (passes example_passes example_page) = [1]
   \<and> map area_coords (areas (passes example_passes example_page)) = [(50, 50)]
   \<and> map tn_wrappers (textNodes (passes example_passes example_page)) = [0, 1, 0]
   \<and> map area_backdrop (areas (passes (take 1 example_passes) example_page)) = [None]
   \<and> map area_backdrop (areas (passes (take 2 example_passes) example_page)) = [Some 4]
   \<and> areas (passes example_passes example_page)
       = areas (passes (take 2 example_passes) example_page)"
proof -
  have u: "untouched example_page" by code_simp
  have a: "applyCalls (passes example_passes example_page) = [1]" by code_simp
  have b: "map area_coords (areas (passes example_passes example_page)) = [(50, 50)]"
    by code_simp
  have c: "map tn_wrappers (textNodes (passes example_passes example_page)) = [0, 1, 0]"
    by code_simp
  have d: "map area_backdrop (areas (passes (take 1 example_passes) example_page)) = [None]"
    by code_simp
  have e: "map area_backdrop (areas (passes (take 2 example_passes) example_page)) = [Some 4]"
    by code_simp
  have f: "take 2 example_passes @ drop 2 example_passes = example_passes" by simp
  have "blurred_areas_kept (passes (take 2 example_passes) example_page)
          (passes example_passes example_page)"
    using restoration_checks_markers [OF u, of "take 2 example_passes" "drop 2 example_passes"]
      f by simp
  then have g: "areas (passes example_passes example_page) ! 0
      = areas (passes (take 2 example_passes) example_page) ! 0"
    using e by (auto simp add: blurred_areas_kept_iff)
  have "length (areas (passes example_passes example_page)) = 1"
    using b by (metis length_map length_Cons list.size(3) One_nat_def)
  moreover have "length (areas (passes (take 2 example_passes) example_page)) = 1"
    using e by (metis length_map length_Cons list.size(3) One_nat_def)
  ultimately have "areas (passes example_passes example_page)
       = areas (passes (take 2 example_passes) example_page)"
    using g by (simp add: list_eq_iff_nth_eq)
  then show ?thesis using a b c d e by simp
qed

subsection \<open>The selector of an element with an id\<close>

lemma forest_paths_update:
  "node_paths u = node_paths (cs ! i) \<Longrightarrow> forest_paths k (cs[i := u]) = forest_paths k cs"
proof (induction cs arbitrary: i k)
  case Nil
  then show ?case by simp
next
  case (Cons c cs)
  then show ?case by (cases i) simp_all
qed

lemma node_paths_update_at: "node_paths (update_at q f doc) = node_paths doc"
proof (induction q arbitrary: doc)
  case Nil
  then show ?case by (cases doc) simp
next
  case (Cons i rest)
  show ?case
  proof (cases doc)
    case (DomNode e cs)
    then show ?thesis using Cons.IH [of "cs ! i"] by (simp add: forest_paths_update)
  qed
qed

lemma element_update_at:
  "map_option element_of (node_at p (update_at q f doc))
   = (if p = q then map_option (\<lambda>n. f (element_of n)) (node_at p doc)
      else map_option element_of (node_at p doc))"
proof (induction p arbitrary: q doc)
  case Nil
  then show ?case by (cases doc; cases q) simp_all
next
  case (Cons i rest)
  show ?case
  proof (cases doc)
    case (DomNode e cs)
    show ?thesis
    proof (cases q)
      case Nil
      then show ?thesis using DomNode by simp
    next
      case (Cons j more)
      then show ?thesis using DomNode Cons.IH [of more "cs ! i"]
        by (auto simp add: nth_list_update)
    qed
  qed
qed

lemma forest_paths_iff:
  "(\<And>c p. c \<in> set cs \<Longrightarrow> (p \<in> set (node_paths c)) = (node_at p c \<noteq> None)) \<Longrightarrow>
   (p \<in> set (forest_paths k cs))
     = (\<exists>i rest. p = (k + i) # rest \<and> i < length cs \<and> node_at rest (cs ! i) \<noteq> None)"
proof (induction cs arbitrary: k)
  case Nil
  then show ?case by simp
next
  case (Cons c cs)
  have ih: "(p \<in> set (forest_paths (Suc k) cs))
     = (\<exists>i rest. p = (Suc k + i) # rest \<and> i < length cs \<and> node_at rest (cs ! i) \<noteq> None)"
    using Cons.prems by (intro Cons.IH) simp
  have hd: "(q \<in> set (node_paths c)) = (node_at q c \<noteq> None)" for q
    using Cons.prems by simp
  show ?case
  proof
    assume "p \<in> set (forest_paths k (c # cs))"
    then consider "p \<in> (#) k ` set (node_paths c)" | "p \<in> set (forest_paths (Suc k) cs)"
      by auto
    then show "\<exists>i rest. p = (k + i) # rest \<and> i < length (c # cs)
        \<and> node_at rest ((c # cs) ! i) \<noteq> None"
    proof cases
      case 1
      then obtain rest where "p = k # rest" "rest \<in> set (node_paths c)" by auto
      then show ?thesis using hd [of rest] by (intro exI [of _ 0] exI [of _ rest]) simp
    next
      case 2
      then obtain i rest where "p = (Suc k + i) # rest" "i < length cs"
        "node_at rest (cs ! i) \<noteq> None" using ih by auto
      then show ?thesis by (intro exI [of _ "Suc i"] exI [of _ rest]) simp
    qed
  next
    assume "\<exists>i rest. p = (k + i) # rest \<and> i < length (c # cs)
        \<and> node_at rest ((c # cs) ! i) \<noteq> None"
    then obtain i rest where p: "p = (k + i) # rest" and i: "i < length (c # cs)"
      and n: "node_at rest ((c # cs) ! i) \<noteq> None" by auto
    show "p \<in> set (forest_paths k (c # cs))"
    proof (cases i)
      case 0
      then show ?thesis using p n hd [of rest] by simp
    next
      case (Suc m)
      then have "p \<in> set (forest_paths (Suc k) cs)" using ih p i n by auto
      then show ?thesis by simp
    qed
  qed
qed

lemma node_paths_iff: "(p \<in> set (node_paths n)) = (node_at p n \<noteq> None)"
proof (induction n arbitrary: p)
  case (DomNode e cs)
  have "(p \<in> set (forest_paths 0 cs))
     = (\<exists>i rest. p = (0 + i) # rest \<and> i < length cs \<and> node_at rest (cs ! i) \<noteq> None)"
    using DomNode.IH by (intro forest_paths_iff) simp
  then show ?case by (cases p) auto
qed

lemma forest_paths_heads: "p \<in> set (forest_paths k cs) \<Longrightarrow> \<exists>i rest. p = i # rest \<and> k \<le> i"
  by (induction cs arbitrary: k) (auto, fastforce)

lemma forest_paths_distinct:
  "(\<And>c. c \<in> set cs \<Longrightarrow> distinct (node_paths c)) \<Longrightarrow> distinct (forest_paths k cs)"
proof (induction cs arbitrary: k)
  case Nil
  then show ?case by simp
next
  case (Cons c cs)
  have "distinct (map ((#) k) (node_paths c))"
    using Cons.prems by (simp add: distinct_map)
  moreover have "distinct (forest_paths (Suc k) cs)" using Cons by simp
  moreover have "set (map ((#) k) (node_paths c)) \<inter> set (forest_paths (Suc k) cs) = {}"
    using forest_paths_heads [of _ "Suc k" cs] by fastforce
  ultimately show ?case by simp
qed

lemma node_paths_distinct: "distinct (node_paths n)"
proof (induction n)
  case (DomNode e cs)
  have "distinct (forest_paths 0 cs)" using DomNode.IH by (intro forest_paths_distinct) simp
  moreover have "[] \<notin> set (forest_paths 0 cs)" using forest_paths_heads [of "[]" 0 cs] by auto
  ultimately show ?case by simp
qed

lemma filter_only:
  "distinct xs \<Longrightarrow> x \<in> set xs \<Longrightarrow> (\<And>y. y \<in> set xs \<Longrightarrow> P y = (y = x)) \<Longrightarrow> filter P xs = [x]"
proof (induction xs)
  case Nil
  then show ?case by simp
next
  case (Cons a xs)
  show ?case
  proof (cases "a = x")
    case True
    then have "filter P xs = []" using Cons.prems by (auto simp add: filter_empty_conv)
    then show ?thesis using True Cons.prems by simp
  next
    case False
    then show ?thesis using Cons by auto
  qed
qed

lemma walk_up_checked:
  "walk_up doc element attempts current path = Inl sel
   \<Longrightarrow> querySelectorAll doc sel = Returns [element]"
proof (induction attempts arbitrary: current path)
  case 0
  then show ?case by simp
next
  case (Suc attempts)
  then show ?case by (auto simp add: Let_def split: if_splits)
qed

lemma getAttribute_setAttribute: "getAttribute a (setAttribute a v e) = Some v"
proof -
  have in_place: "map_of (map (\<lambda>kv. if fst kv = a then (a, v) else kv) xs) a = Some v"
    if "a \<in> fst ` set xs" for xs :: "(string \<times> string) list"
    using that by (induction xs) auto
  have appended: "map_of (xs @ [(a, v)]) a = Some v"
    if "a \<notin> fst ` set xs" for xs :: "(string \<times> string) list"
    using that by (induction xs) auto
  show ?thesis
    by (cases "a \<in> fst ` set (attributes e)")
       (simp_all add: getAttribute_def setAttribute_def in_place appended del: map_of_append)
qed

text \<open>
  The selector that \<open>generateSelector\<close> builds from the path resolves to the
  element, in the document as the call leaves it, when the element is in the document,
  the fallback id can stand in double quotes and no element carries it yet: every
  selector that this part returns has been resolved and compared with the element, or
  names an attribute just written to it.
\<close>

lemma path_selector_resolves:
  assumes "node_at element doc = Some n"
    and "valid_selector (AttrSelector ''data-blur-id'' fallbackId)"
    and "\<And>p m. node_at p doc = Some m \<Longrightarrow>
           getAttribute ''data-blur-id'' (element_of m) \<noteq> Some fallbackId"
  shows "resolves_to (snd (path_selector fallbackId doc element))
           (fst (path_selector fallbackId doc element)) = Some element"
proof (cases "walk_up doc element 6 element []")
  case (Inl sel)
  then have "querySelectorAll doc sel = Returns [element]" by (rule walk_up_checked)
  then show ?thesis using Inl
    by (auto simp add: path_selector_def resolves_to_def querySelector_def)
next
  case (Inr path)
  show ?thesis
  proof (cases "querySelector doc (PathSelector path) = Returns (Some element)")
    case True
    then show ?thesis using Inr
      by (auto simp add: path_selector_def resolves_to_def)
  next
    case False
    let ?doc = "update_at element (setAttribute ''data-blur-id'' fallbackId) doc"
    let ?sel = "AttrSelector ''data-blur-id'' fallbackId"
    have el: "element \<in> set (node_paths doc)" using assms(1) by (simp add: node_paths_iff)
    have only: "matches ?doc ?sel p = (p = element)" if pin: "p \<in> set (node_paths doc)" for p
    proof -
      obtain m where m: "node_at p doc = Some m"
        using pin by (auto simp add: node_paths_iff)
      have u: "map_option element_of (node_at p ?doc)
          = Some (if p = element
                  then setAttribute ''data-blur-id'' fallbackId (element_of m)
                  else element_of m)"
      proof (cases "p = element")
        case True
        then have "node_at element doc = Some m" using m by simp
        then show ?thesis unfolding element_update_at using True by simp
      next
        case False
        then show ?thesis unfolding element_update_at using m by simp
      qed
      then obtain m' where m': "node_at p ?doc = Some m'" by (auto split: if_splits)
      show ?thesis
      proof (cases "p = element")
        case True
        then show ?thesis using u m'
          by (simp add: matches_def getAttribute_setAttribute)
      next
        case False
        then show ?thesis using u m' assms(3) [OF m] by (simp add: matches_def)
      qed
    qed
    have "filter (matches ?doc ?sel) (node_paths doc) = [element]"
      using node_paths_distinct el only by (rule filter_only)
    then have "resolves_to ?doc ?sel = Some element"
      using assms(2)
      by (simp add: resolves_to_def querySelector_def querySelectorAll_def
            node_paths_update_at)
    then show ?thesis using Inr False by (auto simp add: path_selector_def)
  qed
qed

lemma escapeCSSIdentifier_valid:
  "isValidCSSIdentifier str \<Longrightarrow> escapeCSSIdentifier str = str"
proof -
  have "concat (map (\<lambda>c. if identifier_char c then [c] else [CHR 0x5C, c]) cs) = cs"
    if "list_all identifier_char cs" for cs
    using that by (induction cs) simp_all
  moreover assume "isValidCSSIdentifier str"
  then have "list_all identifier_char str"
    by (cases str) (auto simp add: isValidCSSIdentifier_def identifier_char_def)
  ultimately show ?thesis by (simp add: escapeCSSIdentifier_def)
qed

text \<open>
  \<open>generateSelector\<close> builds the selector from the path for an element without an id,
  with an id that \<open>isValidCSSIdentifier\<close> rejects, or with an id that passes but is no
  identifier, so that \<open>document.querySelector\<close> throws.
\<close>

lemma generateSelector_path:
  assumes "node_at element doc = Some n"
    and "elementId (element_of n) = [] \<or> \<not> isValidCSSIdentifier (elementId (element_of n))
         \<or> \<not> css_identifier (elementId (element_of n))"
  shows "generateSelector fallbackId doc element = path_selector fallbackId doc element"
  using assms
  by (auto simp add: generateSelector_def escapeCSSIdentifier_valid querySelector_def
        querySelectorAll_def valid_selector_def Let_def)

theorem generateSelector_resolves_without_id:
  assumes "node_at element doc = Some n"
    and "elementId (element_of n) = [] \<or> \<not> isValidCSSIdentifier (elementId (element_of n))
         \<or> \<not> css_identifier (elementId (element_of n))"
    and "valid_selector (AttrSelector ''data-blur-id'' fallbackId)"
    and "\<And>p m. node_at p doc = Some m \<Longrightarrow>
           getAttribute ''data-blur-id'' (element_of m) \<noteq> Some fallbackId"
  shows "resolves_to (snd (generateSelector fallbackId doc element))
           (fst (generateSelector fallbackId doc element)) = Some element"
  using generateSelector_path [OF assms(1,2)] path_selector_resolves [OF assms(1,3,4)]
  by simp

theorem generateSelector_resolves_without_id_witness:
  "fst (generateSelector ''blur-1-abc'' list_document [0, 1])
     = PathSelector [Segment ''ul'' [''menu''] None, Segment ''li'' [] (Some 2)]
   \<and> resolves_to (snd (generateSelector ''blur-1-abc'' list_document [0, 1]))
       (fst (generateSelector ''blur-1-abc'' list_document [0, 1])) = Some [0, 1]"
proof -
  have n: "node_at [0, 1] list_document = Some (DomNode (plain ''li'' [] []) [])"
    by (simp add: list_document_def)
  have i: "elementId (element_of (DomNode (plain ''li'' [] []) [])) = []
      \<or> \<not> isValidCSSIdentifier (elementId (element_of (DomNode (plain ''li'' [] []) [])))
      \<or> \<not> css_identifier (elementId (element_of (DomNode (plain ''li'' [] []) [])))"
    by (simp add: plain_def)
  have v: "valid_selector (AttrSelector ''data-blur-id'' ''blur-1-abc'')" by code_simp
  have f: "getAttribute ''data-blur-id'' (element_of m) \<noteq> Some ''blur-1-abc''"
    if "node_at p list_document = Some m" for p m
  proof -
    have "p \<in> set (node_paths list_document)" using that by (simp add: node_paths_iff)
    then have "p \<in> {[], [0], [0, 0], [0, 1], [1]}" by (simp add: list_document_def)
    then show ?thesis using that
      by (auto simp add: list_document_def plain_def getAttribute_def)
  qed
  have s: "fst (generateSelector ''blur-1-abc'' list_document [0, 1])
     = PathSelector [Segment ''ul'' [''menu''] None, Segment ''li'' [] (Some 2)]"
    by code_simp
  show ?thesis
    using generateSelector_resolves_without_id [OF n i v f] s
    by simp
qed

text \<open>
  Names that pass \<open>isValidCSSIdentifier\<close> and are no identifiers, and class names with
  other white space than single spaces. A paragraph with the id \<^verbatim>\<open>-1\<close> gets its
  selector from the path. For a list item with the class name of a tab between \<^verbatim>\<open>a\<close>
  and \<^verbatim>\<open>b\<close>, or of one space, \<open>shouldAddNthChild\<close> answers \<open>true\<close> although the
  item is the only one under its parent, and so it does for the class \<^verbatim>\<open>-1\<close>; the
  segment of the first has both classes.
\<close>

lemma generateSelector_unusual_names:
  "generateSelector ''blur-1-abc''
     (DomNode (plain ''body'' [] []) [DomNode (plain ''p'' ''-1'' []) []]) [0]
     = (PathSelector [Segment ''p'' [] None],
        DomNode (plain ''body'' [] []) [DomNode (plain ''p'' ''-1'' []) []])"
  "shouldAddNthChild
     (DomNode (plain ''body'' [] []) [DomNode (plain ''li'' [] [CHR ''a'', CHR 0x09, CHR ''b'']) []])
     [0] []"
  "shouldAddNthChild
     (DomNode (plain ''body'' [] []) [DomNode (plain ''li'' [] '' '') []]) [0] []"
  "shouldAddNthChild
     (DomNode (plain ''body'' [] []) [DomNode (plain ''li'' [] ''-1'') []]) [0] []"
  "\<not> shouldAddNthChild
     (DomNode (plain ''body'' [] []) [DomNode (plain ''li'' [] ''a  b'') []]) [0] []"
  "level_segment
     (DomNode (plain ''body'' [] []) [DomNode (plain ''li'' [] [CHR ''a'', CHR 0x09, CHR ''b'']) []])
     [0] = Segment ''li'' [''a'', ''b''] None"
  by code_simp+

text \<open>
  The id branch in general: an element whose id passes \<open>isValidCSSIdentifier\<close> and is
  an identifier gets \<^verbatim>\<open>#\<close> and its id, whatever else the document holds, and that
  selector resolves to the first element of the document, in document order, with the
  id.
\<close>

lemma generateSelector_with_id:
  assumes "node_at element doc = Some n"
    and "isValidCSSIdentifier (elementId (element_of n))"
    and "css_identifier (elementId (element_of n))"
  shows "generateSelector fallbackId doc element = (IdSelector (elementId (element_of n)), doc)"
proof -
  have "elementId (element_of n) \<noteq> []"
    using assms(2) by (auto simp add: isValidCSSIdentifier_def)
  then show ?thesis
    using assms
    by (simp add: generateSelector_def escapeCSSIdentifier_valid querySelector_def
          querySelectorAll_def valid_selector_def Let_def)
qed

lemma resolves_to_id:
  "css_identifier i \<Longrightarrow>
   resolves_to doc (IdSelector i)
     = (case filter (\<lambda>p. case node_at p doc of Some n \<Rightarrow> elementId (element_of n) = i
                                               | None \<Rightarrow> False) (node_paths doc) of
          [] \<Rightarrow> None | first # others \<Rightarrow> Some first)"
proof -
  have "matches doc (IdSelector i)
          = (\<lambda>p. case node_at p doc of Some n \<Rightarrow> elementId (element_of n) = i
                                      | None \<Rightarrow> False)"
    by (rule ext) (simp add: matches_def split: option.splits)
  moreover assume "css_identifier i"
  ultimately show ?thesis
    by (simp add: resolves_to_def querySelector_def querySelectorAll_def valid_selector_def)
qed

text \<open>
  C1. The claim that resolving the selector of \<open>generateSelector\<close> gives the element
  back fails for an element whose valid id an earlier element of the document shares:
  \<open>generateSelector\<close> returns \<^verbatim>\<open>#\<close> and the id without comparing what it resolves to
  with the element, and the selector resolves to the first element with the id.
\<close>

theorem generateSelector_duplicate_id:
  "node_at [1] duplicate_id_document
     = Some (DomNode (plain ''p'' ''price'' []) [])
   \<and> generateSelector ''blur-1-abc'' duplicate_id_document [1]
     = (IdSelector ''price'', duplicate_id_document)
   \<and> resolves_to duplicate_id_document (IdSelector ''price'') = Some [0]"
  by code_simp

end
